theory Spec2Isabelle
  imports Complex_Main "HOL-Library.AList"
begin

section \<open>JavaScript numbers\<close>

text \<open>
  The dashboards compute with JavaScript numbers. A number is modelled as a finite
  real or one of the three special values. Arithmetic on finite values is exact (no
  rounding and no overflow to an infinity), and \<open>-0\<close> is identified with \<open>0\<close>; the
  special values follow IEEE 754 as JavaScript exposes it.
\<close>

datatype jsnum = Fin real | PInf | NInf | NaN

fun js_add :: "jsnum \<Rightarrow> jsnum \<Rightarrow> jsnum" where
  "js_add (Fin a) (Fin b) = Fin (a + b)"
| "js_add NaN _ = NaN"
| "js_add _ NaN = NaN"
| "js_add PInf NInf = NaN"
| "js_add NInf PInf = NaN"
| "js_add PInf _ = PInf"
| "js_add _ PInf = PInf"
| "js_add NInf _ = NInf"
| "js_add _ NInf = NInf"

fun js_neg :: "jsnum \<Rightarrow> jsnum" where
  "js_neg (Fin a) = Fin (- a)"
| "js_neg PInf = NInf"
| "js_neg NInf = PInf"
| "js_neg NaN = NaN"

definition js_sub :: "jsnum \<Rightarrow> jsnum \<Rightarrow> jsnum" where
  "js_sub a b = js_add a (js_neg b)"

fun js_mul :: "jsnum \<Rightarrow> jsnum \<Rightarrow> jsnum" where
  "js_mul (Fin a) (Fin b) = Fin (a * b)"
| "js_mul NaN _ = NaN"
| "js_mul _ NaN = NaN"
| "js_mul (Fin a) PInf = (if a = 0 then NaN else if 0 < a then PInf else NInf)"
| "js_mul (Fin a) NInf = (if a = 0 then NaN else if 0 < a then NInf else PInf)"
| "js_mul PInf (Fin b) = (if b = 0 then NaN else if 0 < b then PInf else NInf)"
| "js_mul NInf (Fin b) = (if b = 0 then NaN else if 0 < b then NInf else PInf)"
| "js_mul PInf PInf = PInf"
| "js_mul PInf NInf = NInf"
| "js_mul NInf PInf = NInf"
| "js_mul NInf NInf = PInf"

fun js_div :: "jsnum \<Rightarrow> jsnum \<Rightarrow> jsnum" where
  "js_div (Fin a) (Fin b) =
     (if b \<noteq> 0 then Fin (a / b)
      else if a = 0 then NaN else if 0 < a then PInf else NInf)"
| "js_div NaN _ = NaN"
| "js_div _ NaN = NaN"
| "js_div (Fin a) PInf = Fin 0"
| "js_div (Fin a) NInf = Fin 0"
| "js_div PInf (Fin b) = (if 0 \<le> b then PInf else NInf)"
| "js_div NInf (Fin b) = (if 0 \<le> b then NInf else PInf)"
| "js_div PInf PInf = NaN"
| "js_div PInf NInf = NaN"
| "js_div NInf PInf = NaN"
| "js_div NInf NInf = NaN"

text \<open>\<open>Math.max\<close> and \<open>Math.min\<close> of two arguments: \<open>NaN\<close> when either is \<open>NaN\<close>.\<close>

fun Math_max :: "jsnum \<Rightarrow> jsnum \<Rightarrow> jsnum" where
  "Math_max (Fin a) (Fin b) = Fin (max a b)"
| "Math_max NaN _ = NaN"
| "Math_max _ NaN = NaN"
| "Math_max PInf _ = PInf"
| "Math_max _ PInf = PInf"
| "Math_max NInf b = b"
| "Math_max a NInf = a"

fun Math_min :: "jsnum \<Rightarrow> jsnum \<Rightarrow> jsnum" where
  "Math_min (Fin a) (Fin b) = Fin (min a b)"
| "Math_min NaN _ = NaN"
| "Math_min _ NaN = NaN"
| "Math_min NInf _ = NInf"
| "Math_min _ NInf = NInf"
| "Math_min PInf b = b"
| "Math_min a PInf = a"

fun Math_log10 :: "jsnum \<Rightarrow> jsnum" where
  "Math_log10 (Fin a) = (if a < 0 then NaN else if a = 0 then NInf else Fin (log 10 a))"
| "Math_log10 PInf = PInf"
| "Math_log10 NInf = NaN"
| "Math_log10 NaN = NaN"

text \<open>\<open>Math.round\<close> rounds to the nearest integer, a half towards \<open>+\<infinity>\<close>.\<close>

fun Math_round :: "jsnum \<Rightarrow> jsnum" where
  "Math_round (Fin a) = Fin (of_int \<lfloor>a + 1 / 2\<rfloor>)"
| "Math_round x = x"

fun isFinite :: "jsnum \<Rightarrow> bool" where
  "isFinite (Fin a) = True"
| "isFinite _ = False"

fun isNaN :: "jsnum \<Rightarrow> bool" where
  "isNaN NaN = True"
| "isNaN _ = False"

text \<open>Truthiness of a number: \<open>0\<close> and \<open>NaN\<close> are falsy. \<open>js_or a b\<close> is \<open>a || b\<close>.\<close>

fun truthy :: "jsnum \<Rightarrow> bool" where
  "truthy (Fin a) = (a \<noteq> 0)"
| "truthy NaN = False"
| "truthy _ = True"

definition js_or :: "jsnum \<Rightarrow> jsnum \<Rightarrow> jsnum" where
  "js_or a b = (if truthy a then a else b)"

text \<open>The comparisons \<open>a > b\<close> and \<open>a <= b\<close>: false when either side is \<open>NaN\<close>.\<close>

fun js_gt :: "jsnum \<Rightarrow> jsnum \<Rightarrow> bool" where
  "js_gt (Fin a) (Fin b) = (b < a)"
| "js_gt NaN _ = False"
| "js_gt _ NaN = False"
| "js_gt PInf PInf = False"
| "js_gt PInf _ = True"
| "js_gt _ PInf = False"
| "js_gt NInf _ = False"
| "js_gt _ NInf = True"

fun js_le :: "jsnum \<Rightarrow> jsnum \<Rightarrow> bool" where
  "js_le (Fin a) (Fin b) = (a \<le> b)"
| "js_le NaN _ = False"
| "js_le _ NaN = False"
| "js_le NInf _ = True"
| "js_le _ NInf = False"
| "js_le _ PInf = True"
| "js_le PInf _ = False"

definition js_ge :: "jsnum \<Rightarrow> jsnum \<Rightarrow> bool" where
  "js_ge a b = js_le b a"

definition js_lt :: "jsnum \<Rightarrow> jsnum \<Rightarrow> bool" where
  "js_lt a b = js_gt b a"

section \<open>Dates\<close>

text \<open>
  A \<open>Date\<close> object is invalid or holds a time value, the milliseconds since the epoch.
  Parsing a string (\<open>new Date(s)\<close>) and reading a date in local time belong to the
  host, so every function that does either takes the host as its first argument. The
  host's month is reduced modulo 12, as \<open>getMonth\<close> answers \<open>0..11\<close>.
\<close>

datatype jsdate = InvalidDate | Date int

record host =
  newDate :: "string \<Rightarrow> jsdate"
  localYear :: "int \<Rightarrow> int"
  localMonth :: "int \<Rightarrow> nat"

fun date_value :: "jsdate \<Rightarrow> jsnum" where
  "date_value InvalidDate = NaN"
| "date_value (Date t) = Fin (of_int t)"

fun getFullYear :: "host \<Rightarrow> jsdate \<Rightarrow> jsnum" where
  "getFullYear h InvalidDate = NaN"
| "getFullYear h (Date t) = Fin (of_int (localYear h t))"

text \<open>\<open>getMonth\<close> of the valid date with time value \<open>t\<close>.\<close>

definition getMonth :: "host \<Rightarrow> int \<Rightarrow> nat" where
  "getMonth h t = localMonth h t mod 12"

subsection \<open>A host for examples: ISO dates in UTC\<close>

text \<open>
  The date-only form \<open>YYYY-MM-DD\<close> is read as midnight UTC of that day; this host
  reads no other form and keeps its clock in UTC. It is the host of the concrete
  examples; the general theorems hold for every host.
\<close>

definition days_from_civil :: "int \<Rightarrow> int \<Rightarrow> int \<Rightarrow> int" where
  "days_from_civil y m d =
     (let y1 = (if m \<le> 2 then y - 1 else y);
          era = y1 div 400;
          yoe = y1 - era * 400;
          mp = (m + 9) mod 12;
          doy = (153 * mp + 2) div 5 + d - 1;
          doe = yoe * 365 + yoe div 4 - yoe div 100 + doy
      in era * 146097 + doe - 719468)"

definition civil_from_days :: "int \<Rightarrow> int \<times> int \<times> int" where
  "civil_from_days z0 =
     (let z = z0 + 719468;
          era = z div 146097;
          doe = z - era * 146097;
          yoe = (doe - doe div 1460 + doe div 36524 - doe div 146096) div 365;
          y = yoe + era * 400;
          doy = doe - (365 * yoe + yoe div 4 - yoe div 100);
          mp = (5 * doy + 2) div 153;
          d = doy - (153 * mp + 2) div 5 + 1;
          m = (if mp < 10 then mp + 3 else mp - 9)
      in (if m \<le> 2 then y + 1 else y, m, d))"

definition digit :: "char \<Rightarrow> int option" where
  "digit c = (let n = of_char c :: nat in if 48 \<le> n \<and> n \<le> 57 then Some (int n - 48) else None)"

fun digits :: "string \<Rightarrow> int option" where
  "digits [] = None"
| "digits cs = foldl (\<lambda>acc c. case (acc, digit c) of (Some a, Some v) \<Rightarrow> Some (10 * a + v) | _ \<Rightarrow> None)
                 (Some 0) cs"

definition days_in_month :: "int \<Rightarrow> int \<Rightarrow> int" where
  "days_in_month y m =
     (if m = 2 then (if y mod 4 = 0 \<and> (y mod 100 \<noteq> 0 \<or> y mod 400 = 0) then 29 else 28)
      else if m = 4 \<or> m = 6 \<or> m = 9 \<or> m = 11 then 30 else 31)"

fun iso_newDate :: "string \<Rightarrow> jsdate" where
  "iso_newDate [y1, y2, y3, y4, s1, m1, m2, s2, d1, d2] =
     (case (digits [y1, y2, y3, y4], digits [m1, m2], digits [d1, d2]) of
        (Some y, Some m, Some d) \<Rightarrow>
          (if s1 = CHR ''-'' \<and> s2 = CHR ''-'' \<and> 1 \<le> m \<and> m \<le> 12 \<and> 1 \<le> d \<and> d \<le> days_in_month y m
           then Date (days_from_civil y m d * 86400000) else InvalidDate)
      | _ \<Rightarrow> InvalidDate)"
| "iso_newDate _ = InvalidDate"

definition utc_host :: host where
  "utc_host = \<lparr> newDate = iso_newDate,
                localYear = (\<lambda>t. fst (civil_from_days (t div 86400000))),
                localMonth = (\<lambda>t. nat (fst (snd (civil_from_days (t div 86400000))) - 1)) \<rparr>"

text \<open>\<open>const parseDate = (s) => (s ? new Date(s) : null)\<close>; \<open>None\<close> is \<open>null\<close>.\<close>

definition parseDate :: "host \<Rightarrow> string \<Rightarrow> jsdate option" where
  "parseDate h s = (if s \<noteq> [] then Some (newDate h s) else None)"

definition MS_PER_DAY :: jsnum where
  "MS_PER_DAY = Fin (1000 * 60 * 60 * 24)"

section \<open>Rows\<close>

text \<open>
  The rows as the loaders build them: the numeric fields are numbers (\<open>+d.field\<close>, so
  \<open>NaN\<close> for text that is no number and 0 for an empty cell), the dates stay strings
  and are parsed on use; an absent date field behaves as the empty string.
\<close>

record project =
  project_id :: string
  project_name :: string
  start_date :: string
  planned_end :: string
  actual_end :: string
  planned_budget :: jsnum
  actual_cost :: jsnum
  completion_pct :: jsnum

text \<open>
  A change order; \<open>co_project_id\<close> and \<open>co_date\<close> are its fields \<open>project_id\<close> and
  \<open>date\<close>.
\<close>

record change_order =
  co_project_id :: string
  co_cost :: jsnum
  co_date :: string

section \<open>Predictive dashboard: rule risk score\<close>

text \<open>
  An object used as a dictionary from project ids to totals is the map of its own
  properties. Every such object also inherits the members of \<open>Object.prototype\<close>, so a
  key that was never set reads \<open>undefined\<close> only if it is none of their names; if it is
  one, the read gives the member, a function or an object. Such a value is not a
  number: it is truthy, arithmetic converts it to \<open>NaN\<close>, and \<open>+\<close> with a number makes
  a text of it, which is no number either. \<open>NotNum\<close> stands for any such value.
\<close>

datatype jsval = Num jsnum | NotNum

definition Object_prototype_names :: "string list" where
  "Object_prototype_names =
     [''constructor'', ''__proto__'', ''hasOwnProperty'', ''isPrototypeOf'',
      ''propertyIsEnumerable'', ''toLocaleString'', ''toString'', ''valueOf'',
      ''__defineGetter__'', ''__defineSetter__'', ''__lookupGetter__'', ''__lookupSetter__'']"

text \<open>\<open>obj[k] || 0\<close>\<close>

definition prop_or0 :: "(string \<rightharpoonup> jsval) \<Rightarrow> string \<Rightarrow> jsval" where
  "prop_or0 obj k =
     (case obj k of
        Some (Num v) \<Rightarrow> Num (js_or v (Fin 0))
      | Some NotNum \<Rightarrow> NotNum
      | None \<Rightarrow> if k \<in> set Object_prototype_names then NotNum else Num (Fin 0))"

text \<open>The number a value is in arithmetic, and \<open>v + c\<close> for a number \<open>c\<close>.\<close>

fun ToNumber :: "jsval \<Rightarrow> jsnum" where
  "ToNumber (Num v) = v"
| "ToNumber NotNum = NaN"

fun val_add :: "jsval \<Rightarrow> jsnum \<Rightarrow> jsval" where
  "val_add (Num v) c = Num (js_add v c)"
| "val_add NotNum c = NotNum"

text \<open>
  \<open>obj[k] = v\<close> for a number or a text \<open>v\<close>: it sets the own property \<open>k\<close>, except for
  the key \<open>__proto__\<close>, whose inherited setter ignores a value that is not an object.
\<close>

definition assign :: "(string \<rightharpoonup> 'v) \<Rightarrow> string \<Rightarrow> 'v \<Rightarrow> (string \<rightharpoonup> 'v)" where
  "assign obj k v = (if k = ''__proto__'' then obj else obj(k \<mapsto> v))"

definition ruleRiskScore :: "host \<Rightarrow> project \<Rightarrow> (string \<rightharpoonup> jsval) \<Rightarrow> jsnum" where
  "ruleRiskScore h row coMap =
     (let size = Math_log10 (Math_max (Fin 1) (planned_budget row));
          pe = parseDate h (planned_end row);
          ae = parseDate h (actual_end row);
          slipDays = (case (pe, ae) of
                        (Some p, Some a) \<Rightarrow>
                          Math_max (Fin 0) (js_div (js_sub (date_value a) (date_value p)) MS_PER_DAY)
                      | _ \<Rightarrow> Fin 0);
          coTotal = prop_or0 coMap (project_id row);
          score = js_add (js_add (js_mul (Fin 20) size) (js_mul (Fin 0.05) slipDays))
                         (js_mul (Fin 0.000005) (ToNumber coTotal))
      in Math_min (Fin 100) (Math_round score))"

definition co_key :: "change_order \<Rightarrow> string" where
  "co_key r = (if co_project_id r \<noteq> [] then co_project_id r else ''__missing__'')"

definition co_add :: "(string \<rightharpoonup> jsval) \<Rightarrow> change_order \<Rightarrow> (string \<rightharpoonup> jsval)" where
  "co_add m r =
     (let k = co_key r;
          c = (if isFinite (co_cost r) then co_cost r else Fin 0)
      in assign m k (val_add (prop_or0 m k) c))"

definition changeOrderTotalsByProject :: "change_order list \<Rightarrow> (string \<rightharpoonup> jsval)" where
  "changeOrderTotalsByProject rows = foldl co_add Map.empty rows"

text \<open>
  The claim's formula, from the specification's words: the weighted sum clamped to
  \<open>[0, 100]\<close> and rounded, over the budget, the slip in days and the change-order total.
\<close>

definition ruleRiskScore_spec :: "real \<Rightarrow> real \<Rightarrow> real \<Rightarrow> real" where
  "ruleRiskScore_spec budget slipDays changeOrderTotal =
     of_int \<lfloor>min 100 (max 0 (20 * log 10 (max 1 budget) + 0.05 * slipDays
                                   + 0.000005 * changeOrderTotal)) + 1 / 2\<rfloor>"

text \<open>
  The slip of the claim's formula, in the specification's words: the days from the
  planned to the actual end, floored at 0, and 0 when either date is missing. A date
  string is usable when it is empty (missing) or the host parses it to a valid date.
\<close>

definition slipDays_spec :: "host \<Rightarrow> project \<Rightarrow> real" where
  "slipDays_spec h row =
     (case (parseDate h (planned_end row), parseDate h (actual_end row)) of
        (Some (Date p), Some (Date a)) \<Rightarrow> max 0 ((of_int a - of_int p) / 86400000)
      | _ \<Rightarrow> 0)"

definition valid_or_missing :: "host \<Rightarrow> string \<Rightarrow> bool" where
  "valid_or_missing h s \<longleftrightarrow> s = [] \<or> newDate h s \<noteq> InvalidDate"

subsection \<open>Risk histogram\<close>

text \<open>
  The histogram of \<open>render\<close>: five counters, each score sent to one of them by the chain
  of comparisons. \<open>label_range\<close> gives the integer range each bin's label announces.
\<close>

definition bin_index :: "jsnum \<Rightarrow> nat" where
  "bin_index s =
     (if js_le s (Fin 20) then 0 else if js_le s (Fin 40) then 1
      else if js_le s (Fin 60) then 2 else if js_le s (Fin 80) then 3 else 4)"

definition hist_step :: "nat list \<Rightarrow> jsnum \<Rightarrow> nat list" where
  "hist_step hist s = hist[bin_index s := hist ! bin_index s + 1]"

definition riskHistogram :: "jsnum list \<Rightarrow> nat list" where
  "riskHistogram scores = foldl hist_step (replicate 5 0) scores"

definition label_range :: "nat \<Rightarrow> int \<times> int" where
  "label_range i = [(0, 20), (21, 40), (41, 60), (61, 80), (81, 100)] ! i"

subsection \<open>Example rows\<close>

definition example_project :: project where
  "example_project =
     \<lparr> project_id = ''P1'', project_name = ''Demo'', start_date = ''2022-03-01'',
       planned_end = ''2023-01-01'', actual_end = ''2023-02-15'',
       planned_budget = Fin 1000000, actual_cost = Fin 1200000, completion_pct = Fin 100 \<rparr>"

definition small_project :: project where
  "small_project =
     \<lparr> project_id = ''P1'', project_name = ''Demo'', start_date = ''2022-03-01'',
       planned_end = [], actual_end = [],
       planned_budget = Fin 1, actual_cost = Fin 1, completion_pct = Fin 100 \<rparr>"

definition credit_order :: change_order where
  "credit_order = \<lparr> co_project_id = ''P1'', co_cost = Fin (- 1000000), co_date = ''2023-01-01'' \<rparr>"

section \<open>Diagnostic dashboard: change-order reasons\<close>

text \<open>
  A JavaScript string is a sequence of UTF-16 code units, each a number; \<open>u16 s\<close> is
  the string an ASCII literal \<open>s\<close> denotes. \<open>trim\<close> removes from both ends the white
  space and the line terminators of the language: tab, line feed, vertical tab, form
  feed, carriage return, space, no-break space, the other space separators of Unicode,
  the line and paragraph separators, and the byte order mark.
\<close>

type_synonym jsstring = "nat list"

definition u16 :: "string \<Rightarrow> jsstring" where
  "u16 s = map of_char s"

definition is_space :: "nat \<Rightarrow> bool" where
  "is_space u =
     (u \<in> set [0x09, 0x0A, 0x0B, 0x0C, 0x0D, 0x20, 0xA0, 0x1680,
               0x2000, 0x2001, 0x2002, 0x2003, 0x2004, 0x2005, 0x2006, 0x2007, 0x2008, 0x2009,
               0x200A, 0x2028, 0x2029, 0x202F, 0x205F, 0x3000, 0xFEFF])"

definition trim :: "jsstring \<Rightarrow> jsstring" where
  "trim s = rev (dropWhile is_space (rev (dropWhile is_space s)))"

text \<open>
  \<open>raw.replace(/\.0+$/, "")\<close>: a final dot followed by one or more zeros, up to the end
  of the string, is removed; \<open>0x2E\<close> is the dot and \<open>0x30\<close> the digit zero.
\<close>

definition strip_dot_zeros :: "jsstring \<Rightarrow> jsstring" where
  "strip_dot_zeros raw =
     (let r = rev raw;
          zs = takeWhile (\<lambda>u. u = 0x30) r
      in case dropWhile (\<lambda>u. u = 0x30) r of
           [] \<Rightarrow> raw
         | u # pre \<Rightarrow> if zs \<noteq> [] \<and> u = 0x2E then rev pre else raw)"

text \<open>
  What reading a property of \<open>REASON_MAP\<close> gives: \<open>undefined\<close>, a string, or a member
  that the object inherits from \<open>Object.prototype\<close>, which is a function or an object
  and so truthy. The empty string and \<open>undefined\<close> are falsy. \<open>prop_or a b\<close> is
  \<open>a || b\<close>.
\<close>

datatype jsprop = Undefined | Str jsstring | Member

fun truthy_prop :: "jsprop \<Rightarrow> bool" where
  "truthy_prop Undefined = False"
| "truthy_prop (Str s) = (s \<noteq> [])"
| "truthy_prop Member = True"

definition prop_or :: "jsprop \<Rightarrow> jsprop \<Rightarrow> jsprop" where
  "prop_or a b = (if truthy_prop a then a else b)"

definition REASON_MAP :: "(jsstring \<times> jsstring) list" where
  "REASON_MAP = [(u16 ''0'', u16 ''Scope Change''), (u16 ''1'', u16 ''Client Request''),
                 (u16 ''2'', u16 ''Unforeseen Conditions''), (u16 ''3'', u16 ''Design Revision'')]"

definition inherited_name :: "jsstring \<Rightarrow> bool" where
  "inherited_name k \<longleftrightarrow> k \<in> set (map u16 Object_prototype_names)"

text \<open>\<open>REASON_MAP[k]\<close>\<close>

definition REASON_MAP_get :: "jsstring \<Rightarrow> jsprop" where
  "REASON_MAP_get k =
     (case map_of REASON_MAP k of
        Some l \<Rightarrow> Str l
      | None \<Rightarrow> if inherited_name k then Member else Undefined)"

text \<open>
  The loader's \<open>co_reason\<close>: the field is trimmed (\<open>None\<close> is an absent field, for which
  \<open>??\<close> gives the empty string), its form without a final \<open>.0\<close>, \<open>.00\<close>, ... is
  computed, both forms are looked up, and the result is
  \<open>mapped || (raw || "Unspecified")\<close>.
\<close>

definition normalizeReason :: "jsstring option \<Rightarrow> jsprop" where
  "normalizeReason co_reason =
     (let raw = trim (case co_reason of None \<Rightarrow> [] | Some s \<Rightarrow> s);
          numericish = strip_dot_zeros raw;
          mapped = prop_or (REASON_MAP_get raw) (REASON_MAP_get numericish)
      in prop_or mapped (prop_or (Str raw) (Str (u16 ''Unspecified''))))"

section \<open>Prescriptive dashboard\<close>

text \<open>\<open>const clamp = (v, lo, hi) => Math.max(lo, Math.min(hi, v))\<close>\<close>

definition clamp :: "jsnum \<Rightarrow> jsnum \<Rightarrow> jsnum \<Rightarrow> jsnum" where
  "clamp v lo hi = Math_max lo (Math_min hi v)"

text \<open>
  \<open>randJitter\<close> draws from \<open>Math.random()\<close>. The random source is made explicit: \<open>u\<close> is
  the number drawn, in \<open>[0, 1)\<close>; the draw \<open>1/2\<close> gives the jitter 0.
\<close>

definition randJitter :: "real \<Rightarrow> jsnum \<Rightarrow> jsnum" where
  "randJitter u amt = js_mul (js_sub (js_mul (Fin u) (Fin 2)) (Fin 1)) amt"

definition scheduleSlipDays :: "host \<Rightarrow> project \<Rightarrow> jsnum" where
  "scheduleSlipDays h p =
     (case (parseDate h (planned_end p), parseDate h (actual_end p)) of
        (Some pe, Some ae) \<Rightarrow>
          if isNaN (date_value pe) \<or> isNaN (date_value ae) then Fin 0
          else js_div (js_sub (date_value ae) (date_value pe)) MS_PER_DAY
      | _ \<Rightarrow> Fin 0)"

definition costOverrun :: "project \<Rightarrow> jsnum" where
  "costOverrun p =
     (if \<not> isFinite (planned_budget p) \<or> \<not> isFinite (actual_cost p) then Fin 0
      else js_sub (actual_cost p) (planned_budget p))"

text \<open>The raw composite of one project, the callback of \<open>ps.map\<close> in \<open>computeRiskScores\<close>.\<close>

definition raw_composite :: "host \<Rightarrow> (string \<rightharpoonup> jsval) \<Rightarrow> project \<Rightarrow> jsnum" where
  "raw_composite h coMap p =
     (let size = Math_log10 (Math_max (Fin 1) (planned_budget p));
          slip = Math_max (Fin 0) (scheduleSlipDays h p);
          over = Math_max (Fin 0) (costOverrun p);
          co = Math_max (Fin 0) (ToNumber (prop_or0 coMap (project_id p)));
          coTerm = Math_log10 (js_add (Fin 1) (js_div co (Math_max (Fin 1) (planned_budget p))));
          overTerm = Math_log10 (js_add (Fin 1) (js_div over (Math_max (Fin 1) (planned_budget p))));
          slipTerm = js_div slip (Fin 60);
          sizeTerm = js_sub size (Fin 4.5)
      in js_add (js_add (js_add (js_mul (Fin 18) sizeTerm) (js_mul (Fin 15) slipTerm))
                        (js_mul (Fin 22) coTerm))
                (js_mul (Fin 18) overTerm))"

text \<open>
  \<open>d3.min\<close> and \<open>d3.max\<close> of the d3-array library, as it defines them: a value is taken
  when it is smaller (larger) than the current one, or when there is none yet and the
  value compares to itself, so \<open>NaN\<close> is passed over; \<open>None\<close> is \<open>undefined\<close>, the
  answer when no value was taken.
\<close>

fun d3_min_step :: "jsnum option \<Rightarrow> jsnum \<Rightarrow> jsnum option" where
  "d3_min_step None v = (if js_ge v v then Some v else None)"
| "d3_min_step (Some m) v = (if js_gt m v then Some v else Some m)"

fun d3_max_step :: "jsnum option \<Rightarrow> jsnum \<Rightarrow> jsnum option" where
  "d3_max_step None v = (if js_ge v v then Some v else None)"
| "d3_max_step (Some m) v = (if js_lt m v then Some v else Some m)"

definition d3_min :: "jsnum list \<Rightarrow> jsnum option" where
  "d3_min vs = foldl d3_min_step None vs"

definition d3_max :: "jsnum list \<Rightarrow> jsnum option" where
  "d3_max vs = foldl d3_max_step None vs"

text \<open>\<open>undefined\<close> in arithmetic is \<open>NaN\<close>.\<close>

fun to_number :: "jsnum option \<Rightarrow> jsnum" where
  "to_number None = NaN"
| "to_number (Some v) = v"

text \<open>
  \<open>computeRiskScores\<close>: the raw composites, their minimum and maximum, and the object
  of scores keyed by project id, filled in the order of the projects; \<open>rand i\<close> is the
  number \<open>Math.random()\<close> gives at the \<open>i\<close>-th project.
\<close>

definition risk_entry ::
  "(nat \<Rightarrow> real) \<Rightarrow> jsnum \<Rightarrow> jsnum \<Rightarrow> (string \<rightharpoonup> jsnum) \<Rightarrow> nat \<times> string \<times> jsnum \<Rightarrow> (string \<rightharpoonup> jsnum)" where
  "risk_entry rand mn spanv acc e =
     (case e of (i, ident, raw) \<Rightarrow>
        assign acc ident
          (clamp (js_add (js_mul (js_div (js_sub raw mn) spanv) (Fin 100))
                         (randJitter (rand i) (Fin 2)))
             (Fin 0) (Fin 100)))"

definition computeRiskScores ::
  "host \<Rightarrow> (nat \<Rightarrow> real) \<Rightarrow> project list \<Rightarrow> (string \<rightharpoonup> jsval) \<Rightarrow> (string \<rightharpoonup> jsnum)" where
  "computeRiskScores h rand ps coMap =
     (let raws = map (\<lambda>p. (project_id p, raw_composite h coMap p)) ps;
          mn = to_number (d3_min (map snd raws));
          mx = to_number (d3_max (map snd raws));
          spanv = js_or (js_sub mx mn) (Fin 1)
      in foldl (risk_entry rand mn spanv) Map.empty (zip [0..<length raws] raws))"

text \<open>\<open>estimateSavings\<close>: the rate by category, the base and the cap at 7% of the plan.\<close>

definition estimateSavings :: "host \<Rightarrow> project \<Rightarrow> string \<Rightarrow> jsnum \<Rightarrow> jsnum \<Rightarrow> jsnum" where
  "estimateSavings h p cat over coTot =
     (let plan = Math_max (Fin 1) (planned_budget p);
          pct = (if cat = ''Scope alignment''
                   then js_add (Fin 0.10) (Math_min (Fin 0.06) (js_div coTot plan))
                 else if cat = ''Design clarification'' then Fin 0.07
                 else if cat = ''Supplier/subcontractor review'' then Fin 0.05
                 else if cat = ''Schedule tune-up''
                   then js_add (Fin 0.03)
                          (Math_min (Fin 0.02)
                             (js_div (Math_max (Fin 0) (scheduleSlipDays h p)) (Fin 180)))
                 else Fin 0.04);
          base = js_add over coTot;
          capped = Math_min (js_mul (Fin 0.07) plan) (js_mul pct base)
      in Math_max (Fin 0) capped)"

text \<open>
  The savings formula in the specification's words, over the reals: the four
  categories, their rates, and the estimate with the budget itself as cap and divisor.
\<close>

datatype category = Scope_alignment | Design_clarification | Supplier_review | Schedule_tune_up

fun category_name :: "category \<Rightarrow> string" where
  "category_name Scope_alignment = ''Scope alignment''"
| "category_name Design_clarification = ''Design clarification''"
| "category_name Supplier_review = ''Supplier/subcontractor review''"
| "category_name Schedule_tune_up = ''Schedule tune-up''"

fun pct_spec :: "category \<Rightarrow> real \<Rightarrow> real \<Rightarrow> real \<Rightarrow> real" where
  "pct_spec Scope_alignment coTotal budget slipDays = 0.10 + min 0.06 (coTotal / budget)"
| "pct_spec Design_clarification coTotal budget slipDays = 0.07"
| "pct_spec Supplier_review coTotal budget slipDays = 0.05"
| "pct_spec Schedule_tune_up coTotal budget slipDays = 0.03 + min 0.02 (slipDays / 180)"

definition savings_spec :: "real \<Rightarrow> category \<Rightarrow> real \<Rightarrow> real \<Rightarrow> real \<Rightarrow> real" where
  "savings_spec budget cat overrun coTotal slipDays =
     max 0 (min (0.07 * budget) (pct_spec cat coTotal budget slipDays * (overrun + coTotal)))"

definition unbudgeted_project :: project where
  "unbudgeted_project =
     \<lparr> project_id = ''P2'', project_name = ''No budget'', start_date = ''2022-03-01'',
       planned_end = [], actual_end = [],
       planned_budget = Fin 0, actual_cost = Fin 0, completion_pct = Fin 0 \<rparr>"

text \<open>The real number a finite JavaScript number holds (0 for the special values).\<close>

definition fin_val :: "jsnum \<Rightarrow> real" where
  "fin_val x = (case x of Fin a \<Rightarrow> a | _ \<Rightarrow> 0)"

text \<open>
  The quantities of the raw composite in the specification's words, as real numbers
  read off the row: the budget; the days by which the actual end is after the planned
  end, 0 when it is not after it or when a date is missing or not a date; the overrun
  \<open>max(actual_cost - planned_budget, 0)\<close>, 0 when a cost is not a finite number; the
  change-order total recorded for the project, floored at 0, and 0 when none is
  recorded.
\<close>

definition budget_of :: "project \<Rightarrow> real" where
  "budget_of p = (case planned_budget p of Fin b \<Rightarrow> b | _ \<Rightarrow> 0)"

definition days_late :: "host \<Rightarrow> project \<Rightarrow> real" where
  "days_late h p =
     (if planned_end p = [] \<or> actual_end p = [] then 0
      else case (newDate h (planned_end p), newDate h (actual_end p)) of
             (Date pe, Date ae) \<Rightarrow> max 0 ((of_int ae - of_int pe) / 86400000)
           | _ \<Rightarrow> 0)"

definition overrun_amount :: "project \<Rightarrow> real" where
  "overrun_amount p =
     (case (planned_budget p, actual_cost p) of
        (Fin b, Fin a) \<Rightarrow> max 0 (a - b)
      | _ \<Rightarrow> 0)"

definition change_order_total :: "(string \<rightharpoonup> jsval) \<Rightarrow> project \<Rightarrow> real" where
  "change_order_total coMap p =
     (case coMap (project_id p) of
        Some (Num (Fin c)) \<Rightarrow> max 0 c
      | _ \<Rightarrow> 0)"

text \<open>
  The raw composite as the specification writes it, with the budget as divisor, and
  with \<open>max(1, budget)\<close> as divisor.
\<close>

definition raw_claim :: "real \<Rightarrow> real \<Rightarrow> real \<Rightarrow> real \<Rightarrow> real" where
  "raw_claim budget slipDays coTotal overrun =
     18 * (log 10 (max 1 budget) - 4.5) + 15 * (slipDays / 60)
     + 22 * log 10 (1 + coTotal / budget) + 18 * log 10 (1 + overrun / budget)"

definition raw_formula :: "real \<Rightarrow> real \<Rightarrow> real \<Rightarrow> real \<Rightarrow> real" where
  "raw_formula budget slipDays coTotal overrun =
     18 * (log 10 (max 1 budget) - 4.5) + 15 * (slipDays / 60)
     + 22 * log 10 (1 + coTotal / max 1 budget) + 18 * log 10 (1 + overrun / max 1 budget)"

definition raw_claim_of :: "host \<Rightarrow> (string \<rightharpoonup> jsval) \<Rightarrow> project \<Rightarrow> real" where
  "raw_claim_of h coMap p =
     raw_claim (budget_of p) (days_late h p) (change_order_total coMap p) (overrun_amount p)"

definition raw_of :: "host \<Rightarrow> (string \<rightharpoonup> jsval) \<Rightarrow> project \<Rightarrow> real" where
  "raw_of h coMap p =
     raw_formula (budget_of p) (days_late h p) (change_order_total coMap p) (overrun_amount p)"

text \<open>The total recorded under a key, if any, is a finite number.\<close>

definition total_is_finite :: "(string \<rightharpoonup> jsval) \<Rightarrow> string \<Rightarrow> bool" where
  "total_is_finite coMap k =
     (case coMap k of
        None \<Rightarrow> True
      | Some (Num (Fin c)) \<Rightarrow> True
      | Some _ \<Rightarrow> False)"

text \<open>Example cohorts.\<close>

definition cohort_a :: project where
  "cohort_a =
     \<lparr> project_id = ''A'', project_name = ''Small'', start_date = ''2022-03-01'',
       planned_end = [], actual_end = [],
       planned_budget = Fin 10, actual_cost = Fin 10, completion_pct = Fin 100 \<rparr>"

definition cohort_b :: project where
  "cohort_b =
     \<lparr> project_id = ''B'', project_name = ''Large'', start_date = ''2022-03-01'',
       planned_end = [], actual_end = [],
       planned_budget = Fin 100, actual_cost = Fin 100, completion_pct = Fin 100 \<rparr>"

definition late_project :: project where
  "late_project =
     \<lparr> project_id = ''L'', project_name = ''Late'', start_date = ''2022-03-01'',
       planned_end = ''2023-01-01'', actual_end = ''2023-03-02'',
       planned_budget = Fin 100, actual_cost = Fin 10000, completion_pct = Fin 100 \<rparr>"

definition late_orders :: "string \<rightharpoonup> jsval" where
  "late_orders = [''L'' \<mapsto> Num (Fin 900)]"

definition same_id_project :: project where
  "same_id_project =
     \<lparr> project_id = ''A'', project_name = ''Large'', start_date = ''2022-03-01'',
       planned_end = [], actual_end = [],
       planned_budget = Fin 100, actual_cost = Fin 100, completion_pct = Fin 100 \<rparr>"

definition cents_x :: project where
  "cents_x =
     \<lparr> project_id = ''X'', project_name = ''Cents'', start_date = ''2022-03-01'',
       planned_end = [], actual_end = [],
       planned_budget = Fin 0.34375, actual_cost = Fin 3.4375, completion_pct = Fin 100 \<rparr>"

definition cents_y :: project where
  "cents_y =
     \<lparr> project_id = ''Y'', project_name = ''Cents'', start_date = ''2022-03-01'',
       planned_end = [], actual_end = [],
       planned_budget = Fin 0.03125, actual_cost = Fin 3.125, completion_pct = Fin 100 \<rparr>"

definition nan_budget_project :: project where
  "nan_budget_project =
     \<lparr> project_id = ''N'', project_name = ''No number'', start_date = ''2022-03-01'',
       planned_end = [], actual_end = [],
       planned_budget = NaN, actual_cost = Fin 100, completion_pct = Fin 100 \<rparr>"

section \<open>Predictive dashboard: trend fit, forecast and overrun probability\<close>

text \<open>\<open>const mean = (arr) => arr.length ? arr.reduce((a,b)=>a+b,0)/arr.length : 0\<close>\<close>

definition mean :: "jsnum list \<Rightarrow> jsnum" where
  "mean arr =
     (if arr \<noteq> [] then js_div (foldl js_add (Fin 0) arr) (Fin (real (length arr))) else Fin 0)"

text \<open>
  A series object, from years to values, is an association list; its keys are the
  distinct first components and a lookup finds the first binding. Reading a key that
  is not there gives \<open>undefined\<close>, which is \<open>NaN\<close> in arithmetic and falsy. The years are
  integers, as \<open>getFullYear\<close> gives them.
\<close>

definition Object_keys :: "(int \<times> jsnum) list \<Rightarrow> int list" where
  "Object_keys seriesObj = remdups (map fst seriesObj)"

definition lookup :: "(int \<times> jsnum) list \<Rightarrow> int \<Rightarrow> jsnum" where
  "lookup seriesObj x = to_number (map_of seriesObj x)"

record fit =
  fit_a :: jsnum
  fit_b :: jsnum
  fit_xs :: "int list"
  fit_ys :: "jsnum list"

definition linReg :: "(int \<times> jsnum) list \<Rightarrow> fit" where
  "linReg seriesObj =
     (let xs = sort (Object_keys seriesObj);
          ys = map (lookup seriesObj) xs
      in if length xs < 2
         then \<lparr> fit_a = js_or (case ys of [] \<Rightarrow> NaN | y # rest \<Rightarrow> y) (Fin 0),
                fit_b = Fin 0, fit_xs = xs, fit_ys = ys \<rparr>
         else
           (let n = Fin (real (length xs));
                xn = map (\<lambda>x. Fin (of_int x)) xs;
                sx = foldl js_add (Fin 0) xn;
                sy = foldl js_add (Fin 0) ys;
                sxx = foldl (\<lambda>a b. js_add a (js_mul b b)) (Fin 0) xn;
                sxy = foldl (\<lambda>a i. js_add a (js_mul (xn ! i) (ys ! i))) (Fin 0) [0..<length xs];
                b = js_div (js_sub (js_mul n sxy) (js_mul sx sy))
                           (Math_max (Fin 1) (js_sub (js_mul n sxx) (js_mul sx sx)));
                a = js_div (js_sub sy (js_mul b sx)) n
            in \<lparr> fit_a = a, fit_b = b, fit_xs = xs, fit_ys = ys \<rparr>))"

text \<open>
  \<open>forecastNextYears\<close>: the loop \<open>for (let i=1; i<=horizon; i++)\<close>, pushing a label and a
  value at each turn. The horizon is the integer \<open>parseInt\<close> gave.
\<close>

function forecast_loop ::
  "jsnum \<Rightarrow> jsnum \<Rightarrow> jsnum \<Rightarrow> int \<Rightarrow> int \<Rightarrow> jsnum list \<times> jsnum list \<Rightarrow> jsnum list \<times> jsnum list" where
  "forecast_loop a b lastYear horizon i (labels, vals) =
     (if i \<le> horizon
      then (let y = js_add lastYear (Fin (of_int i))
            in forecast_loop a b lastYear horizon (i + 1)
                 (labels @ [y], vals @ [js_add a (js_mul b y)]))
      else (labels, vals))"
  by pat_completeness auto
termination
  by (relation "measure (\<lambda>(a, b, lastYear, horizon, i, acc). nat (horizon + 1 - i))") auto

definition forecastNextYears :: "jsnum \<Rightarrow> jsnum \<Rightarrow> jsnum \<Rightarrow> int \<Rightarrow> jsnum list \<times> jsnum list" where
  "forecastNextYears a b lastYear horizon = forecast_loop a b lastYear horizon 1 ([], [])"

text \<open>\<open>portfolioOverrunProbability\<close>; the result is the pair of \<open>base\<close> and \<open>adj\<close>.\<close>

definition portfolioOverrunProbability :: "host \<Rightarrow> project list \<Rightarrow> jsnum \<times> jsnum" where
  "portfolioOverrunProbability h rows =
     (let elig = filter (\<lambda>r. isFinite (planned_budget r) \<and> js_gt (planned_budget r) (Fin 0)
                              \<and> isFinite (actual_cost r)) rows;
          over = length (filter (\<lambda>r. js_gt (actual_cost r) (planned_budget r)) elig);
          base = (if length elig \<noteq> 0 then js_div (Fin (real over)) (Fin (real (length elig)))
                  else Fin 0);
          schedVar = mean (filter isFinite
                       (map (\<lambda>r. case (parseDate h (planned_end r), parseDate h (actual_end r)) of
                                    (Some pe, Some ae) \<Rightarrow>
                                      js_div (js_sub (date_value ae) (date_value pe))
                                             (Fin (1000 * 60 * 60 * 24))
                                  | _ \<Rightarrow> NaN) rows));
          adj = Math_min (Fin 1)
                  (Math_max (Fin 0)
                     (js_add base (if js_gt schedVar (Fin 0) then Fin 0.05 else Fin (- 0.02))))
      in (base, adj))"

text \<open>
  The quantities the claim names, in its words and over the reals. A row is eligible
  when its planned budget is a finite positive number and its actual cost a finite
  number; it is over budget when its actual cost exceeds its planned budget; the
  baseline is the fraction of the eligible rows that are over budget, 0 when no row is
  eligible. A row has a schedule variance when both its end dates are present and are
  dates: the days from the planned to the actual end. The mean of no numbers is 0.
\<close>

definition eligible_row :: "project \<Rightarrow> bool" where
  "eligible_row r =
     (case (planned_budget r, actual_cost r) of
        (Fin b, Fin a) \<Rightarrow> 0 < b
      | _ \<Rightarrow> False)"

definition over_budget :: "project \<Rightarrow> bool" where
  "over_budget r =
     (case (planned_budget r, actual_cost r) of
        (Fin b, Fin a) \<Rightarrow> b < a
      | _ \<Rightarrow> False)"

definition baseline_fraction :: "project list \<Rightarrow> real" where
  "baseline_fraction rows =
     (let n = length (filter eligible_row rows)
      in if n = 0 then 0
         else real (length (filter (\<lambda>r. eligible_row r \<and> over_budget r) rows)) / real n)"

definition mean_real :: "real list \<Rightarrow> real" where
  "mean_real vs = (if vs = [] then 0 else sum_list vs / real (length vs))"

definition schedule_variance :: "host \<Rightarrow> project \<Rightarrow> real option" where
  "schedule_variance h r =
     (if planned_end r = [] \<or> actual_end r = [] then None
      else case (newDate h (planned_end r), newDate h (actual_end r)) of
             (Date pe, Date ae) \<Rightarrow> Some ((of_int ae - of_int pe) / 86400000)
           | _ \<Rightarrow> None)"

definition schedule_variances :: "host \<Rightarrow> project list \<Rightarrow> real list" where
  "schedule_variances h rows = List.map_filter (schedule_variance h) rows"

definition early_project :: project where
  "early_project =
     \<lparr> project_id = ''P5'', project_name = ''Early'', start_date = ''2022-03-01'',
       planned_end = ''2023-03-02'', actual_end = ''2023-02-15'',
       planned_budget = Fin 100, actual_cost = Fin 50, completion_pct = Fin 100 \<rparr>"

text \<open>
  The points of a series with finite values, the sum of squared residuals of a line
  over them, and the least-squares line in its textbook form, through the means.
\<close>

definition points :: "(int \<times> jsnum) list \<Rightarrow> (real \<times> real) list" where
  "points seriesObj =
     map (\<lambda>x. (of_int x, fin_val (lookup seriesObj x))) (sort (Object_keys seriesObj))"

definition sse :: "(real \<times> real) list \<Rightarrow> real \<Rightarrow> real \<Rightarrow> real" where
  "sse pts a b = sum_list (map (\<lambda>(x, y). (y - (a + b * x))\<^sup>2) pts)"

definition ols_slope :: "(real \<times> real) list \<Rightarrow> real" where
  "ols_slope pts =
     (let mx = mean_real (map fst pts); my = mean_real (map snd pts)
      in sum_list (map (\<lambda>(x, y). (x - mx) * (y - my)) pts)
         / sum_list (map (\<lambda>(x, y). (x - mx)\<^sup>2) pts))"

definition ols_intercept :: "(real \<times> real) list \<Rightarrow> real" where
  "ols_intercept pts =
     mean_real (map snd pts) - ols_slope pts * mean_real (map fst pts)"

text \<open>
  The sums the fit is built from, and the specification's formulas for slope and
  intercept over them.
\<close>

definition sum_x :: "(real \<times> real) list \<Rightarrow> real" where
  "sum_x pts = sum_list (map (\<lambda>(x, y). x) pts)"

definition sum_y :: "(real \<times> real) list \<Rightarrow> real" where
  "sum_y pts = sum_list (map (\<lambda>(x, y). y) pts)"

definition sum_xx :: "(real \<times> real) list \<Rightarrow> real" where
  "sum_xx pts = sum_list (map (\<lambda>(x, y). x * x) pts)"

definition sum_xy :: "(real \<times> real) list \<Rightarrow> real" where
  "sum_xy pts = sum_list (map (\<lambda>(x, y). x * y) pts)"

definition slope_spec :: "(real \<times> real) list \<Rightarrow> real" where
  "slope_spec pts =
     (real (length pts) * sum_xy pts - sum_x pts * sum_y pts)
     / max 1 (real (length pts) * sum_xx pts - (sum_x pts)\<^sup>2)"

definition intercept_spec :: "(real \<times> real) list \<Rightarrow> real" where
  "intercept_spec pts = (sum_y pts - slope_spec pts * sum_x pts) / real (length pts)"

definition example_series :: "(int \<times> jsnum) list" where
  "example_series = [(2022, Fin 5), (2020, Fin 1), (2021, Fin 3)]"

section \<open>Rollups by year and by month\<close>

text \<open>
  An object keyed by year is an association list in insertion order, its key the
  number \<open>getFullYear\<close> gave (\<open>NaN\<close> for an invalid date); only lookups and the set of
  keys matter to the rollups. The source's \<open>sums\<close> is written \<open>sums'\<close>, the former being
  taken in HOL. \<open>get_or0 m k\<close> is \<open>m[k] || 0\<close> on such an object: a year that was
  never set reads \<open>undefined\<close>, which is falsy, and no number is the name of a member
  that objects inherit. \<open>obj_add m k v\<close> is \<open>m[k] = (m[k] || 0) + v\<close>. An array of
  twelve months is a list.
\<close>

type_synonym year_obj = "(jsnum \<times> jsnum) list"

definition get_or0 :: "(jsnum \<rightharpoonup> jsnum) \<Rightarrow> jsnum \<Rightarrow> jsnum" where
  "get_or0 m k = (case m k of None \<Rightarrow> Fin 0 | Some v \<Rightarrow> js_or v (Fin 0))"

definition year_of :: "host \<Rightarrow> string \<Rightarrow> jsnum" where
  "year_of h s = getFullYear h (newDate h s)"

definition obj_add :: "year_obj \<Rightarrow> jsnum \<Rightarrow> jsnum \<Rightarrow> year_obj" where
  "obj_add m k v = AList.update k (js_add (get_or0 (map_of m) k) v) m"

text \<open>\<open>Object.keys(sums).forEach((y) => (out[y] = sums[y] / counts[y]))\<close>\<close>

definition divide_by_counts :: "year_obj \<Rightarrow> year_obj \<Rightarrow> year_obj" where
  "divide_by_counts sums' counts =
     foldl (\<lambda>out y. AList.update y (js_div (to_number (map_of sums' y))
                                            (to_number (map_of counts y))) out)
           [] (map fst sums')"

text \<open>\<open>sums.map((s, i) => (counts[i] ? s / counts[i] : 0))\<close>\<close>

definition divide_months :: "jsnum list \<Rightarrow> jsnum list \<Rightarrow> jsnum list" where
  "divide_months sums' counts =
     map (\<lambda>(s, c). if truthy c then js_div s c else Fin 0) (zip sums' counts)"

text \<open>Strict equality of two numbers: \<open>NaN\<close> equals nothing.\<close>

definition js_strict_eq :: "jsnum \<Rightarrow> jsnum \<Rightarrow> bool" where
  "js_strict_eq a b \<longleftrightarrow> a = b \<and> \<not> isNaN a"

subsection \<open>Diagnostic dashboard: mean of an accessor\<close>

definition rollupAvgByYear_step ::
  "host \<Rightarrow> (project \<Rightarrow> jsnum) \<Rightarrow> year_obj \<times> year_obj \<Rightarrow> project \<Rightarrow> year_obj \<times> year_obj" where
  "rollupAvgByYear_step h accessor acc r =
     (case acc of (sums', counts) \<Rightarrow>
        (let v = accessor r
         in if \<not> isFinite v then (sums', counts)
            else (let y = year_of h (start_date r)
                  in (obj_add sums' y v, obj_add counts y (Fin 1)))))"

definition rollupAvgByYear :: "host \<Rightarrow> project list \<Rightarrow> (project \<Rightarrow> jsnum) \<Rightarrow> year_obj" where
  "rollupAvgByYear h rows accessor =
     (case foldl (rollupAvgByYear_step h accessor) ([], []) rows of
        (sums', counts) \<Rightarrow> divide_by_counts sums' counts)"

definition rollupAvgByMonth_step ::
  "host \<Rightarrow> jsnum \<Rightarrow> (project \<Rightarrow> jsnum) \<Rightarrow> jsnum list \<times> jsnum list \<Rightarrow> project
     \<Rightarrow> jsnum list \<times> jsnum list" where
  "rollupAvgByMonth_step h year accessor acc r =
     (case acc of (sums', counts) \<Rightarrow>
        (case newDate h (start_date r) of
           InvalidDate \<Rightarrow> (sums', counts)
         | Date t \<Rightarrow>
             if \<not> js_strict_eq (getFullYear h (Date t)) year then (sums', counts)
             else (let v = accessor r
                   in if \<not> isFinite v then (sums', counts)
                      else (let m = getMonth h t
                            in (sums'[m := js_add (sums' ! m) v],
                                counts[m := js_add (counts ! m) (Fin 1)])))))"

definition rollupAvgByMonth ::
  "host \<Rightarrow> project list \<Rightarrow> jsnum \<Rightarrow> (project \<Rightarrow> jsnum) \<Rightarrow> jsnum list" where
  "rollupAvgByMonth h rows year accessor =
     (case foldl (rollupAvgByMonth_step h year accessor)
             (replicate 12 (Fin 0), replicate 12 (Fin 0)) rows of
        (sums', counts) \<Rightarrow> divide_months sums' counts)"

subsection \<open>Descriptive and predictive dashboards: mean actual cost\<close>

definition rollupAvgActualCostByYear_step ::
  "host \<Rightarrow> year_obj \<times> year_obj \<Rightarrow> project \<Rightarrow> year_obj \<times> year_obj" where
  "rollupAvgActualCostByYear_step h acc r =
     (case acc of (sums', counts) \<Rightarrow>
        (let y = year_of h (start_date r)
         in if isFinite (actual_cost r)
            then (obj_add sums' y (actual_cost r), obj_add counts y (Fin 1))
            else (sums', counts)))"

definition rollupAvgActualCostByYear :: "host \<Rightarrow> project list \<Rightarrow> year_obj" where
  "rollupAvgActualCostByYear h rows =
     (case foldl (rollupAvgActualCostByYear_step h) ([], []) rows of
        (sums', counts) \<Rightarrow> divide_by_counts sums' counts)"

definition avgActualCostByYear_step ::
  "host \<Rightarrow> year_obj \<times> year_obj \<Rightarrow> project \<Rightarrow> year_obj \<times> year_obj" where
  "avgActualCostByYear_step h acc r =
     (case acc of (sums', cnts) \<Rightarrow>
        (let y = year_of h (start_date r)
         in if \<not> isFinite (actual_cost r) then (sums', cnts)
            else (obj_add sums' y (actual_cost r), obj_add cnts y (Fin 1))))"

definition avgActualCostByYear :: "host \<Rightarrow> project list \<Rightarrow> year_obj" where
  "avgActualCostByYear h rows =
     (case foldl (avgActualCostByYear_step h) ([], []) rows of
        (sums', cnts) \<Rightarrow> divide_by_counts sums' cnts)"

definition rollupAvgActualCostByMonth_step ::
  "host \<Rightarrow> jsnum \<Rightarrow> jsnum list \<times> jsnum list \<Rightarrow> project \<Rightarrow> jsnum list \<times> jsnum list" where
  "rollupAvgActualCostByMonth_step h year acc r =
     (case acc of (sums', counts) \<Rightarrow>
        (case newDate h (start_date r) of
           InvalidDate \<Rightarrow> (sums', counts)
         | Date t \<Rightarrow>
             if js_strict_eq (getFullYear h (Date t)) year \<and> isFinite (actual_cost r)
             then (let m = getMonth h t
                   in (sums'[m := js_add (sums' ! m) (actual_cost r)],
                       counts[m := js_add (counts ! m) (Fin 1)]))
             else (sums', counts)))"

definition rollupAvgActualCostByMonth :: "host \<Rightarrow> project list \<Rightarrow> jsnum \<Rightarrow> jsnum list" where
  "rollupAvgActualCostByMonth h rows year =
     (case foldl (rollupAvgActualCostByMonth_step h year)
             (replicate 12 (Fin 0), replicate 12 (Fin 0)) rows of
        (sums', counts) \<Rightarrow> divide_months sums' counts)"

subsection \<open>Descriptive dashboard: change-order cost\<close>

definition coCostByYear_step :: "host \<Rightarrow> year_obj \<Rightarrow> change_order \<Rightarrow> year_obj" where
  "coCostByYear_step h out r =
     (case newDate h (co_date r) of
        InvalidDate \<Rightarrow> out
      | Date t \<Rightarrow>
          (let y = getFullYear h (Date t)
           in obj_add out y (if isFinite (co_cost r) then co_cost r else Fin 0)))"

definition coCostByYear :: "host \<Rightarrow> change_order list \<Rightarrow> year_obj" where
  "coCostByYear h rows = foldl (coCostByYear_step h) [] rows"

definition coCostByMonth_step :: "host \<Rightarrow> jsnum \<Rightarrow> jsnum list \<Rightarrow> change_order \<Rightarrow> jsnum list" where
  "coCostByMonth_step h year arr r =
     (case newDate h (co_date r) of
        InvalidDate \<Rightarrow> arr
      | Date t \<Rightarrow>
          if js_strict_eq (getFullYear h (Date t)) year \<and> isFinite (co_cost r)
          then (let m = getMonth h t in arr[m := js_add (arr ! m) (co_cost r)])
          else arr)"

definition coCostByMonth :: "host \<Rightarrow> change_order list \<Rightarrow> jsnum \<Rightarrow> jsnum list" where
  "coCostByMonth h rows year = foldl (coCostByMonth_step h year) (replicate 12 (Fin 0)) rows"

text \<open>\<open>arr.reduce((acc, v) => (isFinite(v) ? acc + v : acc), 0)\<close>\<close>

definition sumSafe :: "jsnum list \<Rightarrow> jsnum" where
  "sumSafe arr = foldl (\<lambda>acc v. if isFinite v then js_add acc v else acc) (Fin 0) arr"

subsection \<open>Accessors and the schedule variance by year\<close>

text \<open>
  The two accessors the diagnostic dashboard hands to its rollups answer \<open>NaN\<close> for a
  row that has no value; \<open>avgScheduleVarianceByYear\<close> of the predictive dashboard
  leaves such a row out itself.
\<close>

definition projectCostVarianceRatio :: "project \<Rightarrow> jsnum" where
  "projectCostVarianceRatio r =
     (let p = planned_budget r; a = actual_cost r
      in if \<not> isFinite p \<or> js_le p (Fin 0) \<or> \<not> isFinite a then NaN
         else js_div (js_sub a p) p)"

definition schedVarAccessor :: "host \<Rightarrow> project \<Rightarrow> jsnum" where
  "schedVarAccessor h r =
     (case (parseDate h (planned_end r), parseDate h (actual_end r)) of
        (Some pe, Some ae) \<Rightarrow>
          if isNaN (date_value pe) \<or> isNaN (date_value ae) then NaN
          else js_div (js_sub (date_value ae) (date_value pe)) MS_PER_DAY
      | _ \<Rightarrow> NaN)"

definition avgScheduleVarianceByYear_step ::
  "host \<Rightarrow> year_obj \<times> year_obj \<Rightarrow> project \<Rightarrow> year_obj \<times> year_obj" where
  "avgScheduleVarianceByYear_step h acc r =
     (case acc of (sums', cnts) \<Rightarrow>
        (case (parseDate h (planned_end r), parseDate h (actual_end r)) of
           (Some pe, Some ae) \<Rightarrow>
             if isNaN (date_value pe) \<or> isNaN (date_value ae) then (sums', cnts)
             else (let y = year_of h (start_date r);
                       days = js_div (js_sub (date_value ae) (date_value pe)) MS_PER_DAY
                   in (obj_add sums' y days, obj_add cnts y (Fin 1)))
         | _ \<Rightarrow> (sums', cnts)))"

definition avgScheduleVarianceByYear :: "host \<Rightarrow> project list \<Rightarrow> year_obj" where
  "avgScheduleVarianceByYear h rows =
     (case foldl (avgScheduleVarianceByYear_step h) ([], []) rows of
        (sums', cnts) \<Rightarrow> divide_by_counts sums' cnts)"

subsection \<open>What a rollup aggregates\<close>

text \<open>
  The finite values of the rows of a year, of a month of a year, and the dated change
  orders of a year, as lists of reals in row order.
\<close>

definition year_values :: "host \<Rightarrow> (project \<Rightarrow> jsnum) \<Rightarrow> project list \<Rightarrow> jsnum \<Rightarrow> real list" where
  "year_values h accessor rows y =
     map (\<lambda>r. fin_val (accessor r))
       (filter (\<lambda>r. isFinite (accessor r) \<and> year_of h (start_date r) = y) rows)"

definition in_month :: "host \<Rightarrow> jsnum \<Rightarrow> nat \<Rightarrow> string \<Rightarrow> bool" where
  "in_month h year m s =
     (case newDate h s of
        InvalidDate \<Rightarrow> False
      | Date t \<Rightarrow> js_strict_eq (getFullYear h (Date t)) year \<and> getMonth h t = m)"

definition month_values ::
  "host \<Rightarrow> (project \<Rightarrow> jsnum) \<Rightarrow> jsnum \<Rightarrow> project list \<Rightarrow> nat \<Rightarrow> real list" where
  "month_values h accessor year rows m =
     map (\<lambda>r. fin_val (accessor r))
       (filter (\<lambda>r. isFinite (accessor r) \<and> in_month h year m (start_date r)) rows)"

definition dated_in :: "host \<Rightarrow> jsnum \<Rightarrow> change_order \<Rightarrow> bool" where
  "dated_in h y r =
     (case newDate h (co_date r) of
        InvalidDate \<Rightarrow> False
      | Date t \<Rightarrow> getFullYear h (Date t) = y)"

definition co_year_costs :: "host \<Rightarrow> change_order list \<Rightarrow> jsnum \<Rightarrow> real list" where
  "co_year_costs h rows y =
     map (\<lambda>r. fin_val (co_cost r)) (filter (\<lambda>r. isFinite (co_cost r) \<and> dated_in h y r) rows)"

definition co_month_costs :: "host \<Rightarrow> jsnum \<Rightarrow> change_order list \<Rightarrow> nat \<Rightarrow> real list" where
  "co_month_costs h year rows m =
     map (\<lambda>r. fin_val (co_cost r))
       (filter (\<lambda>r. isFinite (co_cost r) \<and> in_month h year m (co_date r)) rows)"

definition nan_order :: change_order where
  "nan_order = \<lparr> co_project_id = ''P1'', co_cost = NaN, co_date = ''2023-01-01'' \<rparr>"

definition march_project :: project where
  "march_project =
     \<lparr> project_id = ''P3'', project_name = ''March'', start_date = ''2022-03-20'',
       planned_end = [], actual_end = [],
       planned_budget = Fin 700000, actual_cost = Fin 800000, completion_pct = Fin 100 \<rparr>"

definition nan_cost_project :: project where
  "nan_cost_project =
     \<lparr> project_id = ''P4'', project_name = ''Unpriced'', start_date = ''2022-05-10'',
       planned_end = [], actual_end = [],
       planned_budget = Fin 500000, actual_cost = NaN, completion_pct = Fin 10 \<rparr>"

section \<open>Properties of the predictive dashboard\<close>

subsection \<open>Rule risk score\<close>

lemma log10_million: "log 10 1000000 = (6::real)"
proof -
  have "log 10 ((10::real) ^ 6) = real 6" by (rule log_pow_cancel) simp_all
  then show ?thesis by simp
qed

lemma utc_parse_planned: "newDate utc_host ''2023-01-01'' = Date 1672531200000"
  by (simp add: utc_host_def digit_def days_from_civil_def days_in_month_def)

lemma utc_parse_actual: "newDate utc_host ''2023-02-15'' = Date 1676419200000"
  by (simp add: utc_host_def digit_def days_from_civil_def days_in_month_def)

text \<open>
  The specification's example: budget 1,000,000, planned end 2023-01-01, actual end
  2023-02-15 and no change orders. The slip is 45 days, the sum 122.25, the score 100;
  the specification's formula gives the same.
\<close>

lemma ruleRiskScore_example:
  "ruleRiskScore utc_host example_project Map.empty = Fin 100 \<and>
   ruleRiskScore_spec 1000000 45 0 = 100"
  by (simp add: ruleRiskScore_def example_project_def parseDate_def utc_parse_planned
      utc_parse_actual prop_or0_def Object_prototype_names_def js_sub_def MS_PER_DAY_def
      log10_million ruleRiskScore_spec_def)

lemma round_clamp:
  fixes x :: real
  assumes "- (1 / 2) \<le> x"
  shows "min 100 (of_int \<lfloor>x + 1 / 2\<rfloor>) = (of_int \<lfloor>min 100 (max 0 x) + 1 / 2\<rfloor> :: real)"
proof -
  consider "x < 0" | "0 \<le> x" "x < 100" | "100 \<le> x" by linarith
  then show ?thesis
  proof cases
    case 1
    then have l: "\<lfloor>x + 1 / 2\<rfloor> = 0" using assms by (simp add: floor_eq_iff)
    have r: "min 100 (max 0 x) = 0" using 1 by simp
    have z: "\<lfloor>(0::real) + 1 / 2\<rfloor> = 0" by simp
    show ?thesis by (simp add: l r)
  next
    case 2
    then have "\<lfloor>x + 1 / 2\<rfloor> < 101" by (simp add: floor_less_iff)
    then have "\<lfloor>x + 1 / 2\<rfloor> \<le> 100" by linarith
    then have "(of_int \<lfloor>x + 1 / 2\<rfloor> :: real) \<le> 100" by linarith
    then have l: "min 100 (of_int \<lfloor>x + 1 / 2\<rfloor> :: real) = of_int \<lfloor>x + 1 / 2\<rfloor>"
      by (rule min_absorb2)
    have r: "min 100 (max 0 x) = x" using 2 by simp
    show ?thesis by (simp only: l r)
  next
    case 3
    then have "100 \<le> \<lfloor>x + 1 / 2\<rfloor>" by (simp add: le_floor_iff)
    then have "100 \<le> (of_int \<lfloor>x + 1 / 2\<rfloor> :: real)" by linarith
    then have l: "min 100 (of_int \<lfloor>x + 1 / 2\<rfloor> :: real) = 100"
      by (rule min_absorb1)
    have r: "min 100 (max 0 x) = 100" using 3 by simp
    have z: "\<lfloor>(100::real) + 1 / 2\<rfloor> = 100" by (simp add: floor_eq_iff)
    show ?thesis by (simp add: l r z)
  qed
qed

lemma rule_slip_value:
  assumes "valid_or_missing h (planned_end row)" "valid_or_missing h (actual_end row)"
  shows "(case (parseDate h (planned_end row), parseDate h (actual_end row)) of
            (Some p, Some a) \<Rightarrow>
               Math_max (Fin 0) (js_div (js_sub (date_value a) (date_value p)) MS_PER_DAY)
          | _ \<Rightarrow> Fin 0) = Fin (slipDays_spec h row)"
  using assms
  by (cases "newDate h (planned_end row)"; cases "newDate h (actual_end row)")
     (auto simp: valid_or_missing_def slipDays_spec_def parseDate_def js_sub_def MS_PER_DAY_def)

lemma slipDays_spec_nonneg: "0 \<le> slipDays_spec h row"
  by (auto simp: slipDays_spec_def split: option.splits jsdate.splits)

text \<open>
  Where the weighted sum is at least \<open>-1/2\<close>, in particular where the change-order
  total is not negative, the rule score is the specification's formula, both computed
  in exact arithmetic.
\<close>

lemma ruleRiskScore_formula:
  assumes b: "planned_budget row = Fin b"
      and d: "valid_or_missing h (planned_end row)" "valid_or_missing h (actual_end row)"
      and c: "prop_or0 coMap (project_id row) = Num (Fin c)"
      and x: "- (1 / 2) \<le> 20 * log 10 (max 1 b) + 0.05 * slipDays_spec h row + 0.000005 * c"
  shows "ruleRiskScore h row coMap = Fin (ruleRiskScore_spec b (slipDays_spec h row) c)"
proof -
  have pos: "\<not> max 1 b < 0" "max 1 b \<noteq> 0" by simp_all
  have lg: "Math_log10 (Math_max (Fin 1) (Fin b)) = Fin (log 10 (max 1 b))"
    using pos by simp
  have "ruleRiskScore h row coMap =
          Fin (min 100 (of_int \<lfloor>20 * log 10 (max 1 b) + 0.05 * slipDays_spec h row
                                  + 0.000005 * c + 1 / 2\<rfloor>))"
    unfolding ruleRiskScore_def Let_def
    by (simp only: b c rule_slip_value[OF d] lg ToNumber.simps) simp
  then show ?thesis
    using round_clamp[OF x] by (simp only: ruleRiskScore_spec_def)
qed

lemma ruleRiskScore_formula_nonneg:
  assumes b: "planned_budget row = Fin b"
      and d: "valid_or_missing h (planned_end row)" "valid_or_missing h (actual_end row)"
      and c: "prop_or0 coMap (project_id row) = Num (Fin c)" "0 \<le> c"
  shows "ruleRiskScore h row coMap = Fin (ruleRiskScore_spec b (slipDays_spec h row) c)"
proof -
  have "0 \<le> log 10 (max 1 b)" by simp
  then have "0 \<le> 20 * log 10 (max 1 b) + 0.05 * slipDays_spec h row + 0.000005 * c"
    using slipDays_spec_nonneg[of h row] c(2) by simp
  then have "- (1 / 2) \<le> 20 * log 10 (max 1 b) + 0.05 * slipDays_spec h row + 0.000005 * c"
    by linarith
  from ruleRiskScore_formula[OF b d c(1) this] show ?thesis .
qed

text \<open>
  Claim C1 (the rule score equals the clamped and rounded formula for every row) fails
  on the code where the weighted sum is below \<open>-1/2\<close>: \<open>ruleRiskScore\<close> bounds the
  rounded sum by 100 only. For a project of budget 1, no dates, and a change-order
  total of -1,000,000 the code returns -5 where the formula gives 0.
\<close>

theorem ruleRiskScore_below_formula:
  "ruleRiskScore utc_host small_project [''P1'' \<mapsto> Num (Fin (- 1000000))] = Fin (- 5) \<and>
   ruleRiskScore_spec 1 0 (- 1000000) = 0"
  by (simp add: ruleRiskScore_def small_project_def parseDate_def prop_or0_def js_or_def
      ruleRiskScore_spec_def)

text \<open>
  Claim C2 (the rule score is deterministic and always in \<open>[0, 100]\<close>, also for a
  negative change-order total): the score is a function of its input, but with one
  change order of cost -1,000,000 for the project the totals map holds -1,000,000 and
  the score is -5, which is not at least 0.
\<close>

theorem ruleRiskScore_negative_total:
  "changeOrderTotalsByProject [credit_order] ''P1'' = Some (Num (Fin (- 1000000))) \<and>
   ruleRiskScore utc_host small_project (changeOrderTotalsByProject [credit_order]) = Fin (- 5) \<and>
   \<not> js_le (Fin 0) (ruleRiskScore utc_host small_project (changeOrderTotalsByProject [credit_order]))"
  by (simp add: ruleRiskScore_def small_project_def parseDate_def prop_or0_def js_or_def
      changeOrderTotalsByProject_def co_add_def co_key_def credit_order_def assign_def
      Object_prototype_names_def)

subsection \<open>Risk histogram\<close>

lemma bin_index_lt5: "bin_index s < 5"
  by (simp add: bin_index_def)

lemma hist_fold_length: "length (foldl hist_step hist scores) = length hist"
  by (induction scores arbitrary: hist) (simp_all add: hist_step_def)

lemma hist_fold_nth:
  "i < length hist \<Longrightarrow> length hist = 5 \<Longrightarrow>
   foldl hist_step hist scores ! i = hist ! i + length (filter (\<lambda>s. bin_index s = i) scores)"
proof (induction scores arbitrary: hist)
  case Nil
  then show ?case by simp
next
  case (Cons s scores)
  have len: "length (hist_step hist s) = 5" using Cons.prems by (simp add: hist_step_def)
  have "foldl hist_step (hist_step hist s) scores ! i
        = hist_step hist s ! i + length (filter (\<lambda>s. bin_index s = i) scores)"
    using Cons.IH[of "hist_step hist s"] Cons.prems len by simp
  moreover have "hist_step hist s ! i = hist ! i + (if bin_index s = i then 1 else 0)"
    using Cons.prems bin_index_lt5[of s] by (simp add: hist_step_def nth_list_update)
  ultimately show ?case by simp
qed

lemma hist_fold_sum:
  "length hist = 5 \<Longrightarrow> sum_list (foldl hist_step hist scores) = sum_list hist + length scores"
proof (induction scores arbitrary: hist)
  case Nil
  then show ?case by simp
next
  case (Cons s scores)
  have len: "length (hist_step hist s) = 5" using Cons.prems by (simp add: hist_step_def)
  have "sum_list (hist_step hist s) = sum_list hist + 1"
    using Cons.prems bin_index_lt5[of s]
    by (simp add: hist_step_def sum_list_update)
  then show ?case using Cons.IH[OF len] by simp
qed

lemma bin_index_label:
  assumes "0 \<le> k" "k \<le> 100" "i < 5"
  shows "bin_index (Fin (of_int k)) = i \<longleftrightarrow> fst (label_range i) \<le> k \<and> k \<le> snd (label_range i)"
proof -
  from \<open>i < 5\<close> consider "i = 0" | "i = 1" | "i = 2" | "i = 3" | "i = 4" by linarith
  then show ?thesis using assms
    by cases (auto simp: bin_index_def label_range_def)
qed

text \<open>
  Claim C10: the histogram has five bins, every score is counted in exactly one of them
  (bin \<open>i\<close> holds the number of scores whose index is \<open>i\<close>, and the index is below 5),
  so the five counts sum to the number of scores; and an integer score in \<open>[0, 100]\<close>
  falls in bin \<open>i\<close> exactly when it lies in the range the bin's label gives: 0-20,
  21-40, 41-60, 61-80, 81-100.
\<close>

theorem risk_histogram_partition:
  "length (riskHistogram scores) = 5 \<and>
   sum_list (riskHistogram scores) = length scores \<and>
   (\<forall>i<5. riskHistogram scores ! i = length (filter (\<lambda>s. bin_index s = i) scores)) \<and>
   (\<forall>s. bin_index s < 5) \<and>
   (\<forall>k i. 0 \<le> k \<and> k \<le> 100 \<and> i < 5 \<longrightarrow>
      (bin_index (Fin (of_int k)) = i \<longleftrightarrow> fst (label_range i) \<le> k \<and> k \<le> snd (label_range i)))"
  using hist_fold_length[of "replicate 5 0" scores] hist_fold_sum[of "replicate 5 0" scores]
    hist_fold_nth[of _ "replicate 5 0" scores] bin_index_label bin_index_lt5
  by (simp add: riskHistogram_def)

theorem risk_histogram_partition_witness:
  "riskHistogram [Fin 0, Fin 20, Fin 21, Fin 100, Fin 70] = [2, 1, 0, 1, 1] \<and>
   sum_list (riskHistogram [Fin 0, Fin 20, Fin 21, Fin 100, Fin 70]) = 5 \<and>
   bin_index (Fin (of_int 21)) = 1 \<and> fst (label_range 1) \<le> 21 \<and> 21 \<le> snd (label_range 1)"
proof -
  let ?xs = "[Fin 0, Fin 20, Fin 21, Fin 100, Fin 70]"
  have a: "riskHistogram ?xs = [2, 1, 0, 1, 1]"
    by (simp add: riskHistogram_def hist_step_def bin_index_def eval_nat_numeral)
  have b: "sum_list (riskHistogram ?xs) = length ?xs"
    using risk_histogram_partition[of ?xs] by blast
  have c: "bin_index (Fin (of_int 21)) = 1 \<longleftrightarrow> fst (label_range 1) \<le> 21 \<and> 21 \<le> snd (label_range 1)"
    using risk_histogram_partition[of ?xs, THEN conjunct2, THEN conjunct2, THEN conjunct2,
        THEN conjunct2, rule_format, of 21 1]
    by simp
  have d: "fst (label_range 1) \<le> 21 \<and> 21 \<le> snd (label_range 1)"
    by (simp add: label_range_def)
  show ?thesis using a b c d by simp
qed

section \<open>Properties of the diagnostic dashboard\<close>

subsection \<open>Change-order reasons\<close>

lemma strip_dot_zeros_suffix:
  "strip_dot_zeros (s @ 0x2E # replicate (Suc n) 0x30) = s"
  by (simp add: strip_dot_zeros_def takeWhile_append dropWhile_append del: replicate_Suc replicate.simps)

lemma codes:
  "(c, l) \<in> set REASON_MAP \<Longrightarrow> c \<in> {[0x30], [0x31], [0x32], [0x33]} \<and> l \<noteq> []"
  by (auto simp: REASON_MAP_def u16_def)

lemma strip_code: "(c, l) \<in> set REASON_MAP \<Longrightarrow> strip_dot_zeros c = c"
  by (auto simp: REASON_MAP_def strip_dot_zeros_def u16_def)

lemma map_of_code: "(c, l) \<in> set REASON_MAP \<Longrightarrow> map_of REASON_MAP c = Some l"
  by (auto simp: REASON_MAP_def u16_def)

lemma inherited_first: "inherited_name k \<Longrightarrow> k \<noteq> [] \<and> 95 \<le> hd k"
  by (auto simp: inherited_name_def Object_prototype_names_def u16_def)

lemma code_not_inherited:
  assumes "(c, l) \<in> set REASON_MAP"
  shows "\<not> inherited_name (c @ s)"
proof
  assume "inherited_name (c @ s)"
  then have "95 \<le> hd (c @ s)" using inherited_first by blast
  moreover have "hd (c @ s) \<le> 0x33" using codes[OF assms] by auto
  ultimately show False by simp
qed

lemma label_truthy: "map_of REASON_MAP k = Some l \<Longrightarrow> l \<noteq> []"
  using codes map_of_SomeD by fastforce

text \<open>
  For a reason that, trimmed, with or without its final \<open>.0\<close>, is not the name of an
  inherited member, the result is a text: \<open>Unspecified\<close> for a blank reason, the label
  of the form without the suffix if it has one, and the trimmed reason otherwise.
\<close>

lemma normalizeReason_char:
  assumes "raw = trim (case r of None \<Rightarrow> [] | Some s \<Rightarrow> s)"
      and "\<not> inherited_name raw" "\<not> inherited_name (strip_dot_zeros raw)"
  shows "normalizeReason r =
           (if raw = [] then Str (u16 ''Unspecified'')
            else case map_of REASON_MAP (strip_dot_zeros raw) of
                   Some l \<Rightarrow> Str l
                 | None \<Rightarrow> Str raw)"
proof (cases "map_of REASON_MAP raw")
  case None
  show ?thesis
  proof (cases "map_of REASON_MAP (strip_dot_zeros raw)")
    case n2: None
    have "strip_dot_zeros [] = ([] :: jsstring)" by (simp add: strip_dot_zeros_def)
    then show ?thesis
      using None n2 assms(2,3)
      by (simp add: normalizeReason_def Let_def assms(1)[symmetric] REASON_MAP_get_def
          prop_or_def u16_def)
  next
    case (Some l)
    then have l: "l \<noteq> []" by (rule label_truthy)
    have "raw \<noteq> []"
    proof
      assume "raw = []"
      then have "strip_dot_zeros raw = []" by (simp add: strip_dot_zeros_def)
      then have "([], l) \<in> set REASON_MAP" using Some map_of_SomeD by fastforce
      then show False using codes by blast
    qed
    then show ?thesis
      using None Some l assms(2)
      by (simp add: normalizeReason_def Let_def assms(1)[symmetric] REASON_MAP_get_def prop_or_def)
  qed
next
  case (Some l)
  then have in_map: "(raw, l) \<in> set REASON_MAP" by (rule map_of_SomeD)
  then have "strip_dot_zeros raw = raw" "raw \<noteq> []" "l \<noteq> []"
    using strip_code codes by auto
  with Some show ?thesis
    by (simp add: normalizeReason_def Let_def assms(1)[symmetric] REASON_MAP_get_def prop_or_def)
qed

lemma strip_empty: "strip_dot_zeros [] = []"
  by (simp add: strip_dot_zeros_def)

lemma empty_not_inherited: "\<not> inherited_name []"
  using inherited_first by blast

text \<open>
  Claim C8, as the code has it: an absent or blank reason becomes \<open>Unspecified\<close>; a
  reason whose trimmed text is one of the codes 0..3, bare or followed by \<open>.0\<close>,
  \<open>.00\<close>, ..., becomes the code's label; every other reason keeps its trimmed text,
  provided that text, with or without a final \<open>.0\<close>, \<open>.00\<close>, ..., is not the name of a
  member that every object inherits (\<open>constructor\<close>, \<open>toString\<close>, ...). So \<open>2\<close> maps
  to \<open>Unforeseen Conditions\<close>, also behind a no-break space, the empty reason to
  \<open>Unspecified\<close>, \<open>0.0\<close> to \<open>Scope Change\<close>, \<open>1\<close> to \<open>Client Request\<close> and
  \<open>3.00\<close> to \<open>Design Revision\<close>.
\<close>

theorem reason_mapping:
  "normalizeReason None = Str (u16 ''Unspecified'') \<and>
   (\<forall>raw. trim raw = [] \<longrightarrow> normalizeReason (Some raw) = Str (u16 ''Unspecified'')) \<and>
   (\<forall>raw c l. (c, l) \<in> set REASON_MAP \<and>
        (trim raw = c \<or> (\<exists>n. trim raw = c @ 0x2E # replicate (Suc n) 0x30))
        \<longrightarrow> normalizeReason (Some raw) = Str l) \<and>
   (\<forall>raw. trim raw \<noteq> [] \<and> map_of REASON_MAP (strip_dot_zeros (trim raw)) = None \<and>
          \<not> inherited_name (trim raw) \<and> \<not> inherited_name (strip_dot_zeros (trim raw))
        \<longrightarrow> normalizeReason (Some raw) = Str (trim raw)) \<and>
   normalizeReason (Some (u16 ''2'')) = Str (u16 ''Unforeseen Conditions'') \<and>
   normalizeReason (Some (u16 '''')) = Str (u16 ''Unspecified'') \<and>
   normalizeReason (Some (u16 ''0.0'')) = Str (u16 ''Scope Change'') \<and>
   normalizeReason (Some (0xA0 # u16 ''2'')) = Str (u16 ''Unforeseen Conditions'') \<and>
   normalizeReason (Some (u16 ''1'')) = Str (u16 ''Client Request'') \<and>
   normalizeReason (Some (u16 ''3.00'')) = Str (u16 ''Design Revision'')"
proof (intro conjI allI impI)
  have t0: "trim [] = []" by (simp add: trim_def)
  show "normalizeReason None = Str (u16 ''Unspecified'')"
    using normalizeReason_char[of "[]" None] by (simp add: t0 strip_empty empty_not_inherited)
  show "normalizeReason (Some raw) = Str (u16 ''Unspecified'')" if "trim raw = []" for raw
    using normalizeReason_char[of "[]" "Some raw"] that
    by (simp add: strip_empty empty_not_inherited)
  show "normalizeReason (Some raw) = Str l"
    if h: "(c, l) \<in> set REASON_MAP \<and>
        (trim raw = c \<or> (\<exists>n. trim raw = c @ 0x2E # replicate (Suc n) 0x30))" for raw c l
  proof -
    from h have cl: "(c, l) \<in> set REASON_MAP" by simp
    then have ne: "c \<noteq> []" using codes by auto
    from h have st: "strip_dot_zeros (trim raw) = c"
      using strip_code[OF cl] strip_dot_zeros_suffix[of c] by auto
    from h ne have tne: "trim raw \<noteq> []" by auto
    from h obtain s where "trim raw = c @ s" by auto
    then have n1: "\<not> inherited_name (trim raw)" using code_not_inherited[OF cl] by simp
    have n2: "\<not> inherited_name (strip_dot_zeros (trim raw))"
      using code_not_inherited[OF cl, of "[]"] st by simp
    from normalizeReason_char[of "trim raw" "Some raw", OF _ n1 n2]
    show ?thesis using st tne map_of_code[OF cl] by simp
  qed
  show "normalizeReason (Some raw) = Str (trim raw)"
    if "trim raw \<noteq> [] \<and> map_of REASON_MAP (strip_dot_zeros (trim raw)) = None \<and>
          \<not> inherited_name (trim raw) \<and> \<not> inherited_name (strip_dot_zeros (trim raw))" for raw
    using normalizeReason_char[of "trim raw" "Some raw"] that by simp
  show "normalizeReason (Some (u16 ''2'')) = Str (u16 ''Unforeseen Conditions'')"
    by (simp add: normalizeReason_def trim_def is_space_def strip_dot_zeros_def REASON_MAP_def
        REASON_MAP_get_def prop_or_def u16_def)
  show "normalizeReason (Some (u16 '''')) = Str (u16 ''Unspecified'')"
    by (simp add: normalizeReason_def trim_def is_space_def strip_dot_zeros_def REASON_MAP_def
        REASON_MAP_get_def prop_or_def u16_def inherited_name_def Object_prototype_names_def)
  show "normalizeReason (Some (u16 ''0.0'')) = Str (u16 ''Scope Change'')"
    by (simp add: normalizeReason_def trim_def is_space_def strip_dot_zeros_def REASON_MAP_def
        REASON_MAP_get_def prop_or_def u16_def inherited_name_def Object_prototype_names_def)
  show "normalizeReason (Some (0xA0 # u16 ''2'')) = Str (u16 ''Unforeseen Conditions'')"
    by (simp add: normalizeReason_def trim_def is_space_def strip_dot_zeros_def REASON_MAP_def
        REASON_MAP_get_def prop_or_def u16_def)
  show "normalizeReason (Some (u16 ''1'')) = Str (u16 ''Client Request'')"
    by (simp add: normalizeReason_def trim_def is_space_def strip_dot_zeros_def REASON_MAP_def
        REASON_MAP_get_def prop_or_def u16_def)
  show "normalizeReason (Some (u16 ''3.00'')) = Str (u16 ''Design Revision'')"
    by (simp add: normalizeReason_def trim_def is_space_def strip_dot_zeros_def REASON_MAP_def
        REASON_MAP_get_def prop_or_def u16_def inherited_name_def Object_prototype_names_def)
qed

text \<open>
  The claim as stated sends every reason outside the lookup to \<open>Unspecified\<close>; the
  code keeps it: \<open>Weather\<close> stays \<open>Weather\<close>.
\<close>

theorem reason_unmapped_kept:
  "normalizeReason (Some (u16 ''Weather'')) = Str (u16 ''Weather'') \<and>
   map_of REASON_MAP (u16 ''Weather'') = None \<and>
   normalizeReason (Some (u16 ''Weather'')) \<noteq> Str (u16 ''Unspecified'')"
  by (simp add: normalizeReason_def trim_def is_space_def strip_dot_zeros_def REASON_MAP_def
      REASON_MAP_get_def prop_or_def u16_def inherited_name_def Object_prototype_names_def)

theorem reason_mapping_witness:
  "trim (u16 '' 1.00 '') = u16 ''1'' @ 0x2E # replicate (Suc 1) 0x30 \<and>
   normalizeReason (Some (u16 '' 1.00 '')) = Str (u16 ''Client Request'') \<and>
   trim (u16 ''  '') = [] \<and> normalizeReason (Some (u16 ''  '')) = Str (u16 ''Unspecified'') \<and>
   trim (u16 '' Weather'') = u16 ''Weather'' \<and>
   map_of REASON_MAP (strip_dot_zeros (u16 ''Weather'')) = None \<and>
   \<not> inherited_name (u16 ''Weather'') \<and> \<not> inherited_name (strip_dot_zeros (u16 ''Weather'')) \<and>
   normalizeReason (Some (u16 '' Weather'')) = Str (u16 ''Weather'')"
proof -
  note t = reason_mapping
  have a: "trim (u16 '' 1.00 '') = u16 ''1'' @ 0x2E # replicate (Suc 1) 0x30"
    by (simp add: trim_def is_space_def u16_def)
  have m: "(u16 ''1'', u16 ''Client Request'') \<in> set REASON_MAP" by (simp add: REASON_MAP_def)
  have b: "normalizeReason (Some (u16 '' 1.00 '')) = Str (u16 ''Client Request'')"
    using t[THEN conjunct2, THEN conjunct2, THEN conjunct1, rule_format,
            of "u16 ''1''" "u16 ''Client Request''" "u16 '' 1.00 ''"]
      a m by blast
  have c: "trim (u16 ''  '') = []" by (simp add: trim_def is_space_def u16_def)
  have d: "normalizeReason (Some (u16 ''  '')) = Str (u16 ''Unspecified'')"
    using t[THEN conjunct2, THEN conjunct1, rule_format, OF c] .
  have e: "trim (u16 '' Weather'') = u16 ''Weather''" by (simp add: trim_def is_space_def u16_def)
  have s: "strip_dot_zeros (u16 ''Weather'') = u16 ''Weather''"
    by (simp add: strip_dot_zeros_def u16_def)
  have f: "map_of REASON_MAP (strip_dot_zeros (u16 ''Weather'')) = None"
    by (simp add: s) (simp add: REASON_MAP_def u16_def)
  have i: "\<not> inherited_name (u16 ''Weather'')"
    by (simp add: inherited_name_def Object_prototype_names_def u16_def)
  then have i2: "\<not> inherited_name (strip_dot_zeros (u16 ''Weather''))" by (simp add: s)
  have ne: "u16 ''Weather'' \<noteq> []" by (simp add: u16_def)
  have g: "normalizeReason (Some (u16 '' Weather'')) = Str (u16 ''Weather'')"
    using t[THEN conjunct2, THEN conjunct2, THEN conjunct2, THEN conjunct1, rule_format,
            of "u16 '' Weather''"] e f i i2 ne
    by simp
  show ?thesis using a b c d e f i i2 g by simp
qed

text \<open>
  Outside that statement: a reason that names an inherited member is not a text after
  the loader, it is the member.
\<close>

lemma reason_inherited_member:
  "normalizeReason (Some (u16 ''constructor'')) = Member"
  by (simp add: normalizeReason_def trim_def is_space_def strip_dot_zeros_def REASON_MAP_def
      REASON_MAP_get_def prop_or_def u16_def inherited_name_def Object_prototype_names_def)

section \<open>Properties of the prescriptive dashboard\<close>

subsection \<open>Finite values\<close>

lemma isFinite_iff: "isFinite x \<longleftrightarrow> (\<exists>a. x = Fin a)"
  by (cases x) simp_all

lemma fin_val_Fin [simp]: "fin_val (Fin a) = a"
  by (simp add: fin_val_def)

lemma slip_quotient_finite:
  "\<not> isNaN (date_value pe) \<Longrightarrow> \<not> isNaN (date_value ae) \<Longrightarrow>
   isFinite (js_div (js_sub (date_value ae) (date_value pe)) MS_PER_DAY)"
  by (cases pe; cases ae) (simp_all add: js_sub_def MS_PER_DAY_def)

lemma scheduleSlipDays_isFinite: "isFinite (scheduleSlipDays h p)"
  by (auto simp: scheduleSlipDays_def slip_quotient_finite split: option.splits)

lemma scheduleSlipDays_finite: "\<exists>s. scheduleSlipDays h p = Fin s"
  using scheduleSlipDays_isFinite[of h p] by (simp add: isFinite_iff)

lemma slip_floor_finite:
  "\<exists>s. 0 \<le> s \<and> Math_max (Fin 0) (scheduleSlipDays h p) = Fin s"
proof -
  obtain s where "scheduleSlipDays h p = Fin s" using scheduleSlipDays_finite by blast
  then show ?thesis by simp
qed

subsection \<open>Savings estimate\<close>

lemma estimateSavings_plan:
  assumes "planned_budget p = Fin b"
  shows "estimateSavings h p (category_name k) (Fin ov) (Fin co) =
         Fin (savings_spec (max 1 b) k ov co
                (fin_val (Math_max (Fin 0) (scheduleSlipDays h p))))"
proof -
  obtain s where s: "Math_max (Fin 0) (scheduleSlipDays h p) = Fin s"
    using slip_floor_finite by blast
  have pos: "max 1 b \<noteq> 0" by simp
  show ?thesis
    by (cases k) (simp_all add: estimateSavings_def savings_spec_def assms s pos)
qed

text \<open>
  Claim C9, as the code has it: for a project with a finite budget, a finite overrun
  and a finite change-order total, and each of the four categories, the estimate is
  \<open>max 0 (min (0.07 * plan) (pct * (overrun + coTotal)))\<close> where \<open>plan = max 1 budget\<close>
  stands for the budget, also as the divisor in the rate of Scope alignment, and the
  slip in days is floored at 0; for a budget of at least 1 this is the formula with the
  budget itself.
\<close>

theorem estimateSavings_formula:
  "planned_budget p = Fin b \<Longrightarrow>
   estimateSavings h p (category_name k) (Fin ov) (Fin co) =
     Fin (savings_spec (max 1 b) k ov co (fin_val (Math_max (Fin 0) (scheduleSlipDays h p)))) \<and>
   (1 \<le> b \<longrightarrow>
      estimateSavings h p (category_name k) (Fin ov) (Fin co) =
        Fin (savings_spec b k ov co (fin_val (Math_max (Fin 0) (scheduleSlipDays h p)))))"
  using estimateSavings_plan[of p b h k ov co] by (simp add: max_def)

theorem estimateSavings_formula_witness:
  "planned_budget example_project = Fin 1000000 \<and> (1::real) \<le> 1000000 \<and>
   estimateSavings utc_host example_project (category_name Schedule_tune_up) (Fin 200000) (Fin 100000)
     = Fin (savings_spec 1000000 Schedule_tune_up 200000 100000 45) \<and>
   savings_spec 1000000 Schedule_tune_up 200000 100000 45 = 15000"
proof -
  have b: "planned_budget example_project = Fin 1000000"
    by (simp add: example_project_def)
  have s: "scheduleSlipDays utc_host example_project = Fin 45"
    by (simp add: scheduleSlipDays_def example_project_def parseDate_def utc_parse_planned
        utc_parse_actual js_sub_def MS_PER_DAY_def)
  have e: "estimateSavings utc_host example_project (category_name Schedule_tune_up) (Fin 200000) (Fin 100000)
     = Fin (savings_spec 1000000 Schedule_tune_up 200000 100000 45)"
    using estimateSavings_formula[OF b, of utc_host Schedule_tune_up 200000 100000] s by simp
  have v: "savings_spec 1000000 Schedule_tune_up 200000 100000 45 = 15000"
    by (simp add: savings_spec_def)
  show ?thesis using b e v by simp
qed

text \<open>
  The claim as stated caps at 7% of the budget; the code caps at 7% of
  \<open>max 1 budget\<close>. For a project with budget 0, the category Design clarification, no
  overrun and a change-order total of 100 the code estimates 0.07 where the claim's
  formula gives 0.
\<close>

theorem estimateSavings_zero_budget:
  "estimateSavings utc_host unbudgeted_project (category_name Design_clarification) (Fin 0) (Fin 100)
     = Fin 0.07 \<and>
   savings_spec 0 Design_clarification 0 100 0 = 0"
  by (simp add: estimateSavings_def unbudgeted_project_def savings_spec_def)
subsection \<open>Spread risk scores\<close>

lemma costOverrun_finite: "isFinite (costOverrun p)"
  by (cases "planned_budget p"; cases "actual_cost p") (simp_all add: costOverrun_def js_sub_def)

lemma floor0_finite: "isFinite x \<Longrightarrow> \<exists>a. 0 \<le> a \<and> Math_max (Fin 0) x = Fin a"
  by (cases x) simp_all

lemma slip_value: "Math_max (Fin 0) (scheduleSlipDays h p) = Fin (days_late h p)"
  by (cases "newDate h (planned_end p)"; cases "newDate h (actual_end p)")
     (auto simp: scheduleSlipDays_def days_late_def parseDate_def js_sub_def MS_PER_DAY_def)

lemma overrun_value: "Math_max (Fin 0) (costOverrun p) = Fin (overrun_amount p)"
  by (cases "planned_budget p"; cases "actual_cost p")
     (simp_all add: costOverrun_def overrun_amount_def js_sub_def)

lemma total_value:
  assumes "total_is_finite coMap (project_id p)" "project_id p \<notin> set Object_prototype_names"
  shows "Math_max (Fin 0) (ToNumber (prop_or0 coMap (project_id p))) = Fin (change_order_total coMap p)"
  using assms
  by (auto simp: total_is_finite_def prop_or0_def change_order_total_def js_or_def
           split: option.splits jsval.splits jsnum.splits)

lemma days_late_nonneg: "0 \<le> days_late h p"
  by (auto simp: days_late_def split: jsdate.splits)

lemma overrun_amount_nonneg: "0 \<le> overrun_amount p"
  by (auto simp: overrun_amount_def split: jsnum.splits)

lemma change_order_total_nonneg: "0 \<le> change_order_total coMap p"
  by (auto simp: change_order_total_def split: option.splits jsval.splits jsnum.splits)

lemma raw_composite_value:
  assumes b: "planned_budget p = Fin b"
      and t: "total_is_finite coMap (project_id p)"
      and o: "project_id p \<notin> set Object_prototype_names"
  shows "raw_composite h coMap p = Fin (raw_of h coMap p)"
proof -
  define s where "s = days_late h p"
  define ov where "ov = overrun_amount p"
  define co where "co = change_order_total coMap p"
  have s: "Math_max (Fin 0) (scheduleSlipDays h p) = Fin s" by (simp only: s_def slip_value)
  have ov: "Math_max (Fin 0) (costOverrun p) = Fin ov" by (simp only: ov_def overrun_value)
  have co: "Math_max (Fin 0) (ToNumber (prop_or0 coMap (project_id p))) = Fin co"
    by (simp only: co_def total_value[OF t o])
  have nn: "0 \<le> ov" "0 \<le> co"
    by (simp_all add: ov_def co_def overrun_amount_nonneg change_order_total_nonneg)
  have pos: "0 < max 1 b" by simp
  have q1: "0 < 1 + co / max 1 b" using nn(2) pos by (simp add: add_pos_nonneg)
  have q2: "0 < 1 + ov / max 1 b" using nn(1) pos by (simp add: add_pos_nonneg)
  have l0: "Math_log10 (Fin (max 1 b)) = Fin (log 10 (max 1 b))" using pos by simp
  have l1: "Math_log10 (Fin (1 + co / max 1 b)) = Fin (log 10 (1 + co / max 1 b))"
    using q1 by simp
  have l2: "Math_log10 (Fin (1 + ov / max 1 b)) = Fin (log 10 (1 + ov / max 1 b))"
    using q2 by simp
  have d1: "js_div (Fin co) (Fin (max 1 b)) = Fin (co / max 1 b)" using pos by simp
  have d2: "js_div (Fin ov) (Fin (max 1 b)) = Fin (ov / max 1 b)" using pos by simp
  have d3: "js_div (Fin s) (Fin 60) = Fin (s / 60)" by simp
  have bo: "budget_of p = b" by (simp add: budget_of_def b)
  have "raw_composite h coMap p =
          Fin (18 * (log 10 (max 1 b) - 4.5) + 15 * (s / 60)
               + 22 * log 10 (1 + co / max 1 b) + 18 * log 10 (1 + ov / max 1 b))"
    unfolding raw_composite_def Let_def
    by (simp add: b s ov co l0 l1 l2 d1 d2 d3 js_sub_def
        del: js_div.simps Math_log10.simps)
  then show ?thesis
    by (simp only: raw_of_def raw_formula_def bo s_def ov_def co_def)
qed

lemma d3_min_fold:
  "foldl d3_min_step (Some (Fin m)) (map Fin rs) = Some (Fin (fold min rs m))"
  by (induction rs arbitrary: m) (simp_all add: min_def)

lemma d3_max_fold:
  "foldl d3_max_step (Some (Fin m)) (map Fin rs) = Some (Fin (fold max rs m))"
  by (induction rs arbitrary: m) (simp_all add: max_def js_lt_def)

lemma d3_min_Fin: "rs \<noteq> [] \<Longrightarrow> d3_min (map Fin rs) = Some (Fin (Min (set rs)))"
  by (cases rs) (simp_all add: d3_min_def js_ge_def d3_min_fold Min.set_eq_fold del: set_simps)

lemma d3_max_Fin: "rs \<noteq> [] \<Longrightarrow> d3_max (map Fin rs) = Some (Fin (Max (set rs)))"
  by (cases rs) (simp_all add: d3_max_def js_ge_def d3_max_fold Max.set_eq_fold del: set_simps)

lemma risk_entry_apply:
  "k \<noteq> ''__proto__'' \<Longrightarrow>
   risk_entry rand mn sp acc (i, k, r) =
     acc(k \<mapsto> clamp (js_add (js_mul (js_div (js_sub r mn) sp) (Fin 100))
                         (randJitter (rand i) (Fin 2))) (Fin 0) (Fin 100))"
  by (simp add: risk_entry_def assign_def)

lemma risk_fold_other:
  "k \<notin> (\<lambda>e. fst (snd e)) ` set es \<Longrightarrow> foldl (risk_entry rand mn sp) acc es k = acc k"
  by (induction es arbitrary: acc) (auto simp: risk_entry_def assign_def)

lemma risk_fold_lookup:
  "distinct (map (\<lambda>e. fst (snd e)) es) \<Longrightarrow> (i, k, r) \<in> set es \<Longrightarrow> k \<noteq> ''__proto__'' \<Longrightarrow>
   foldl (risk_entry rand mn sp) acc es k =
     Some (clamp (js_add (js_mul (js_div (js_sub r mn) sp) (Fin 100)) (randJitter (rand i) (Fin 2)))
             (Fin 0) (Fin 100))"
proof (induction es arbitrary: acc)
  case Nil
  then show ?case by simp
next
  case (Cons e es)
  show ?case
  proof (cases "e = (i, k, r)")
    case True
    then have "k \<notin> (\<lambda>e. fst (snd e)) ` set es" using Cons.prems(1) by auto
    then have "foldl (risk_entry rand mn sp) (risk_entry rand mn sp acc e) es k
               = risk_entry rand mn sp acc e k"
      by (rule risk_fold_other)
    then show ?thesis using True Cons.prems(3) by (simp add: risk_entry_apply)
  next
    case False
    then have "(i, k, r) \<in> set es" using Cons.prems(2) by simp
    moreover have "distinct (map (\<lambda>e. fst (snd e)) es)" using Cons.prems(1) by simp
    ultimately show ?thesis using Cons.IH Cons.prems(3) by simp
  qed
qed

lemma risk_fold_dom:
  "''__proto__'' \<notin> (\<lambda>e. fst (snd e)) ` set es \<Longrightarrow>
   dom (foldl (risk_entry rand mn sp) acc es) = dom acc \<union> (\<lambda>e. fst (snd e)) ` set es"
  by (induction es arbitrary: acc) (auto simp: risk_entry_def assign_def)

lemma no_jitter: "randJitter (1 / 2) (Fin 2) = Fin 0"
  by (simp add: randJitter_def js_sub_def)

lemma normalized_score:
  assumes "a \<le> r" "r \<le> b" "a < b"
  shows "clamp (js_add (js_mul (js_div (js_sub (Fin r) (Fin a)) (Fin (b - a))) (Fin 100)) (Fin 0))
           (Fin 0) (Fin 100) = Fin ((r - a) / (b - a) * 100)"
proof -
  define x where "x = (r - a) / (b - a)"
  have "0 \<le> x" "x \<le> 1" using assms by (simp_all add: x_def)
  then have bounds: "0 \<le> x * 100" "x * 100 \<le> 100" by linarith+
  have "js_div (js_sub (Fin r) (Fin a)) (Fin (b - a)) = Fin x"
    using assms by (simp add: js_sub_def x_def)
  then have "clamp (js_add (js_mul (js_div (js_sub (Fin r) (Fin a)) (Fin (b - a))) (Fin 100)) (Fin 0))
           (Fin 0) (Fin 100) = Fin (x * 100)"
    using bounds by (simp add: clamp_def del: js_div.simps)
  then show ?thesis by (simp only: x_def)
qed

lemma zip_index_keys:
  "map (\<lambda>e. fst (snd e)) (zip [0..<length xs] (map (\<lambda>p. (f p, g p)) xs)) = map f xs"
  by (rule nth_equalityI) simp_all

lemma zip_index_member:
  assumes "p \<in> set xs"
  shows "\<exists>i. (i, f p, g p) \<in> set (zip [0..<length xs] (map (\<lambda>p. (f p, g p)) xs))"
proof -
  from assms obtain i where i: "i < length xs" "xs ! i = p" by (auto simp: in_set_conv_nth)
  then have "(i, f p, g p) \<in> set (zip [0..<length xs] (map (\<lambda>p. (f p, g p)) xs))"
    by (auto simp: in_set_zip intro!: exI[of _ i])
  then show ?thesis ..
qed

text \<open>
  Claim C7 (for every cohort of at least two projects whose raw composites are not all
  identical, the scores with the jitter forced to 0 are the min-max normalization of
  the raw values, so the least is 0 and the greatest 100) holds as follows. Take a
  cohort whose project ids are pairwise distinct and none of them the name of a member
  that objects inherit, whose budgets are finite numbers and whose recorded
  change-order totals are finite numbers, and in which two raw composites differ, the
  raw composite being \<open>18 (log10 (max 1 budget) - 4.5) + 15 (slipDays / 60) +
  22 log10 (1 + coTotal / max 1 budget) + 18 log10 (1 + overrun / max 1 budget)\<close>; every
  draw is \<open>1/2\<close>, which makes the jitter 0. Then the scorer computes that raw composite
  for every project and assigns it \<open>(raw - min) / (max - min) * 100\<close> over the cohort;
  every assigned score is in \<open>[0, 100]\<close>, the score 0 is assigned and the score 100 is
  assigned. For a budget of at least 1 the raw composite is the specification's, with
  the budget itself as divisor.
\<close>

theorem spread_scores_min_max:
  assumes ids: "distinct (map project_id ps)"
      and own: "\<forall>p\<in>set ps. project_id p \<notin> set Object_prototype_names"
      and bud: "\<forall>p\<in>set ps. isFinite (planned_budget p)"
      and com: "\<forall>p\<in>set ps. total_is_finite coMap (project_id p)"
      and two: "\<exists>p\<in>set ps. \<exists>q\<in>set ps. raw_of h coMap p \<noteq> raw_of h coMap q"
  shows "dom (computeRiskScores h (\<lambda>i. 1 / 2) ps coMap) = project_id ` set ps \<and>
         (\<forall>p\<in>set ps. raw_composite h coMap p = Fin (raw_of h coMap p)) \<and>
         (\<forall>p\<in>set ps. computeRiskScores h (\<lambda>i. 1 / 2) ps coMap (project_id p) =
            Some (Fin ((raw_of h coMap p - Min (raw_of h coMap ` set ps))
                       / (Max (raw_of h coMap ` set ps) - Min (raw_of h coMap ` set ps)) * 100))) \<and>
         Fin 0 \<in> ran (computeRiskScores h (\<lambda>i. 1 / 2) ps coMap) \<and>
         Fin 100 \<in> ran (computeRiskScores h (\<lambda>i. 1 / 2) ps coMap) \<and>
         (\<forall>v\<in>ran (computeRiskScores h (\<lambda>i. 1 / 2) ps coMap). \<exists>r. v = Fin r \<and> 0 \<le> r \<and> r \<le> 100) \<and>
         (\<forall>p\<in>set ps. 1 \<le> budget_of p \<longrightarrow> raw_of h coMap p = raw_claim_of h coMap p)"
proof -
  let ?m = "computeRiskScores h (\<lambda>i. 1 / 2) ps coMap"
  let ?f = "raw_of h coMap"
  let ?raws = "map (\<lambda>p. (project_id p, raw_composite h coMap p)) ps"
  let ?es = "zip [0..<length ps] ?raws"
  let ?mn = "Min (?f ` set ps)"
  let ?mx = "Max (?f ` set ps)"
  have fin: "raw_composite h coMap p = Fin (?f p)" if p: "p \<in> set ps" for p
  proof -
    from bud p have "isFinite (planned_budget p)" by blast
    then obtain b where "planned_budget p = Fin b" by (auto simp: isFinite_iff)
    from raw_composite_value[OF this, of coMap h] com own p show ?thesis by blast
  qed
  have snd_raws: "map snd ?raws = map Fin (map ?f ps)"
    using fin by (simp add: comp_def)
  from two have ne: "map ?f ps \<noteq> []" by auto
  have mn: "to_number (d3_min (map snd ?raws)) = Fin ?mn"
    using d3_min_Fin[OF ne] by (simp only: snd_raws set_map to_number.simps)
  have mx: "to_number (d3_max (map snd ?raws)) = Fin ?mx"
    using d3_max_Fin[OF ne] by (simp only: snd_raws set_map to_number.simps)
  have lo: "?mn \<le> ?f p" if "p \<in> set ps" for p using that by (simp add: Min_le)
  have hi: "?f p \<le> ?mx" if "p \<in> set ps" for p using that by (simp add: Max_ge)
  obtain p q where pq: "p \<in> set ps" "q \<in> set ps" "?f p \<noteq> ?f q"
    using two by blast
  then have lt: "?mn < ?mx"
    using lo[OF pq(1)] hi[OF pq(1)] lo[OF pq(2)] hi[OF pq(2)] by linarith
  have sp: "js_or (js_sub (Fin ?mx) (Fin ?mn)) (Fin 1) = Fin (?mx - ?mn)"
    using lt by (simp add: js_or_def js_sub_def)
  have m_eq: "?m = foldl (risk_entry (\<lambda>i. 1 / 2) (Fin ?mn) (Fin (?mx - ?mn))) Map.empty ?es"
    unfolding computeRiskScores_def Let_def
    by (simp only: mn mx sp length_map)
  have keys: "map (\<lambda>e. fst (snd e)) ?es = map project_id ps"
    by (rule zip_index_keys)
  have dist: "distinct (map (\<lambda>e. fst (snd e)) ?es)" using ids by (simp only: keys)
  have proto: "''__proto__'' \<in> set Object_prototype_names"
    by (simp add: Object_prototype_names_def)
  have not_proto: "project_id p \<noteq> ''__proto__''" if "p \<in> set ps" for p
    using own that proto by metis
  have score: "?m (project_id p) = Some (Fin ((?f p - ?mn) / (?mx - ?mn) * 100))"
    if p: "p \<in> set ps" for p
  proof -
    obtain i where "(i, project_id p, raw_composite h coMap p) \<in> set ?es"
      using zip_index_member[OF p] by blast
    from risk_fold_lookup[OF dist this not_proto[OF p]]
    have "?m (project_id p) =
            Some (clamp (js_add (js_mul (js_div (js_sub (Fin (?f p)) (Fin ?mn)) (Fin (?mx - ?mn)))
                                   (Fin 100)) (Fin 0)) (Fin 0) (Fin 100))"
      by (simp only: m_eq fin[OF p] no_jitter)
    then show ?thesis by (simp only: normalized_score[OF lo[OF p] hi[OF p] lt])
  qed
  have dom_m: "dom ?m = project_id ` set ps"
  proof -
    have "set (map (\<lambda>e. fst (snd e)) ?es) = project_id ` set ps" by (simp only: keys set_map)
    then have k: "(\<lambda>e. fst (snd e)) ` set ?es = project_id ` set ps" by simp
    have "''__proto__'' \<notin> project_id ` set ps" using not_proto by force
    then have "''__proto__'' \<notin> (\<lambda>e. fst (snd e)) ` set ?es" unfolding k .
    from risk_fold_dom[OF this] have "dom ?m = (\<lambda>e. fst (snd e)) ` set ?es"
      by (simp only: m_eq) simp
    then show ?thesis by (simp only: k)
  qed
  have nonempty: "?f ` set ps \<noteq> {}" using pq(1) by auto
  have "?mn \<in> ?f ` set ps" using nonempty by (intro Min_in) simp_all
  then obtain p0 where p0: "p0 \<in> set ps" "?f p0 = ?mn" by auto
  have zero: "Fin 0 \<in> ran ?m"
    using score[OF p0(1)] p0(2) by (auto intro!: ranI[of ?m "project_id p0"])
  have "?mx \<in> ?f ` set ps" using nonempty by (intro Max_in) simp_all
  then obtain p1 where p1: "p1 \<in> set ps" "?f p1 = ?mx" by auto
  have "(?mx - ?mn) / (?mx - ?mn) * 100 = 100" using lt by simp
  then have hundred: "Fin 100 \<in> ran ?m"
    using score[OF p1(1)] p1(2) by (auto intro!: ranI[of ?m "project_id p1"])
  have range: "\<exists>r. v = Fin r \<and> 0 \<le> r \<and> r \<le> 100" if v: "v \<in> ran ?m" for v
  proof -
    from v obtain k where k: "?m k = Some v" by (auto simp: ran_def)
    then have "k \<in> dom ?m" by auto
    then obtain p where p: "p \<in> set ps" "k = project_id p" using dom_m by auto
    define x where "x = (?f p - ?mn) / (?mx - ?mn)"
    have "0 \<le> x" "x \<le> 1" using lo[OF p(1)] hi[OF p(1)] lt by (simp_all add: x_def)
    then have "0 \<le> x * 100" "x * 100 \<le> 100" by linarith+
    moreover have "v = Fin (x * 100)" using score[OF p(1)] k p(2) by (simp add: x_def)
    ultimately show ?thesis by blast
  qed
  have formula: "?f p = raw_claim_of h coMap p" if "1 \<le> budget_of p" for p
  proof -
    from that have "max 1 (budget_of p) = budget_of p" by simp
    then show ?thesis by (simp add: raw_of_def raw_claim_of_def raw_formula_def raw_claim_def)
  qed
  show ?thesis using dom_m fin score zero hundred range formula by blast
qed

lemma log10_hundred: "log 10 100 = (2::real)"
proof -
  have "log 10 ((10::real) ^ 2) = real 2" by (rule log_pow_cancel) simp_all
  then show ?thesis by simp
qed

lemma utc_parse_march2: "newDate utc_host ''2023-03-02'' = Date 1677715200000"
  by (simp add: utc_host_def digit_def days_from_civil_def days_in_month_def)

lemma cohort_raw_values:
  "raw_of utc_host late_orders cohort_a = - 63"
  "raw_of utc_host late_orders cohort_b = - 45"
  "raw_of utc_host late_orders late_project = 28"
  by (simp_all add: raw_of_def raw_formula_def budget_of_def days_late_def overrun_amount_def
      change_order_total_def late_orders_def cohort_a_def cohort_b_def late_project_def
      utc_parse_planned utc_parse_march2 log10_hundred)

text \<open>
  A cohort of three: a small project, a large one, and a large one that ended 60 days
  late, cost 9,900 over its budget of 100 and has change orders of 900. The raw
  composites are -63, -45 and 28, the scores 0, 1800/91 and 100.
\<close>

theorem spread_scores_min_max_witness:
  "distinct (map project_id [cohort_a, cohort_b, late_project]) \<and>
   raw_of utc_host late_orders cohort_a \<noteq> raw_of utc_host late_orders late_project \<and>
   raw_composite utc_host late_orders late_project = Fin 28 \<and>
   computeRiskScores utc_host (\<lambda>i. 1 / 2) [cohort_a, cohort_b, late_project] late_orders ''A''
     = Some (Fin 0) \<and>
   computeRiskScores utc_host (\<lambda>i. 1 / 2) [cohort_a, cohort_b, late_project] late_orders ''B''
     = Some (Fin (1800 / 91)) \<and>
   computeRiskScores utc_host (\<lambda>i. 1 / 2) [cohort_a, cohort_b, late_project] late_orders ''L''
     = Some (Fin 100) \<and>
   Fin 0 \<in> ran (computeRiskScores utc_host (\<lambda>i. 1 / 2) [cohort_a, cohort_b, late_project] late_orders) \<and>
   Fin 100 \<in> ran (computeRiskScores utc_host (\<lambda>i. 1 / 2) [cohort_a, cohort_b, late_project] late_orders)"
proof -
  let ?ps = "[cohort_a, cohort_b, late_project]"
  let ?m = "computeRiskScores utc_host (\<lambda>i. 1 / 2) ?ps late_orders"
  have ida: "project_id cohort_a = ''A''" "project_id cohort_b = ''B''"
      "project_id late_project = ''L''"
    by (simp_all add: cohort_a_def cohort_b_def late_project_def)
  have h1: "distinct (map project_id ?ps)" by (simp add: ida)
  have h2: "\<forall>p\<in>set ?ps. project_id p \<notin> set Object_prototype_names"
    by (simp add: ida Object_prototype_names_def)
  have h3: "\<forall>p\<in>set ?ps. isFinite (planned_budget p)"
    by (simp add: cohort_a_def cohort_b_def late_project_def)
  have h4: "\<forall>p\<in>set ?ps. total_is_finite late_orders (project_id p)"
    by (simp add: ida total_is_finite_def late_orders_def)
  have ne: "raw_of utc_host late_orders cohort_a \<noteq> raw_of utc_host late_orders late_project"
    by (simp add: cohort_raw_values)
  then have h5: "\<exists>p\<in>set ?ps. \<exists>q\<in>set ?ps. raw_of utc_host late_orders p \<noteq> raw_of utc_host late_orders q"
    by auto
  note t = spread_scores_min_max[OF h1 h2 h3 h4 h5]
  have img: "raw_of utc_host late_orders ` set ?ps = {- 63, - 45, 28}"
    by (simp add: cohort_raw_values)
  have mnmx: "Min {- 63, - 45, 28 :: real} = - 63" "Max {- 63, - 45, 28 :: real} = 28"
    by simp_all
  note sc = t[THEN conjunct2, THEN conjunct2, THEN conjunct1, rule_format]
  have a: "?m ''A'' = Some (Fin 0)"
    using sc[of cohort_a] by (simp add: img mnmx cohort_raw_values ida)
  have b: "?m ''B'' = Some (Fin (1800 / 91))"
    using sc[of cohort_b] by (simp add: img mnmx cohort_raw_values ida)
  have l: "?m ''L'' = Some (Fin 100)"
    using sc[of late_project] by (simp add: img mnmx cohort_raw_values ida)
  have r: "raw_composite utc_host late_orders late_project = Fin 28"
    using t[THEN conjunct2, THEN conjunct1, rule_format, of late_project]
    by (simp add: cohort_raw_values)
  have z: "Fin 0 \<in> ran ?m" using t by blast
  have c: "Fin 100 \<in> ran ?m" using t by blast
  show ?thesis using h1 ne r a b l z c by simp
qed

text \<open>
  The claim as the specification states it fails on three cohorts whose raw composites
  are not all identical. Two projects that share the id \<open>A\<close>, with raw composites -63
  and -45: the scores are stored by id, the second overwrites the first, and the only
  score is 100. Two projects with budgets below 1 (0.34375 and 0.03125) and the same
  overrun 3.09375: the specification's formula, which divides by the budget, gives -63
  and -45, but the code divides by \<open>max(1, budget)\<close>, finds the two raw composites equal
  and scores both 0. A project whose budget is no number next to one with budget 100:
  the raw composites are \<open>NaN\<close> and -45, the scores \<open>NaN\<close> and 0.
\<close>

theorem spread_scores_failing_cohorts:
  "raw_claim_of utc_host Map.empty cohort_a = - 63 \<and>
   raw_claim_of utc_host Map.empty same_id_project = - 45 \<and>
   raw_composite utc_host Map.empty cohort_a = Fin (- 63) \<and>
   raw_composite utc_host Map.empty same_id_project = Fin (- 45) \<and>
   computeRiskScores utc_host (\<lambda>i. 1 / 2) [cohort_a, same_id_project] Map.empty
     = [''A'' \<mapsto> Fin 100] \<and>
   Fin 0 \<notin> ran (computeRiskScores utc_host (\<lambda>i. 1 / 2) [cohort_a, same_id_project] Map.empty) \<and>
   raw_claim_of utc_host Map.empty cents_x = - 63 \<and>
   raw_claim_of utc_host Map.empty cents_y = - 45 \<and>
   raw_composite utc_host Map.empty cents_x = raw_composite utc_host Map.empty cents_y \<and>
   computeRiskScores utc_host (\<lambda>i. 1 / 2) [cents_x, cents_y] Map.empty
     = [''X'' \<mapsto> Fin 0, ''Y'' \<mapsto> Fin 0] \<and>
   Fin 100 \<notin> ran (computeRiskScores utc_host (\<lambda>i. 1 / 2) [cents_x, cents_y] Map.empty) \<and>
   raw_composite utc_host Map.empty nan_budget_project = NaN \<and>
   raw_composite utc_host Map.empty cohort_b = Fin (- 45) \<and>
   computeRiskScores utc_host (\<lambda>i. 1 / 2) [nan_budget_project, cohort_b] Map.empty
     = [''N'' \<mapsto> NaN, ''B'' \<mapsto> Fin 0] \<and>
   Fin 100 \<notin> ran (computeRiskScores utc_host (\<lambda>i. 1 / 2) [nan_budget_project, cohort_b] Map.empty)"
proof -
  have names: "''A'' \<notin> set Object_prototype_names" "''B'' \<notin> set Object_prototype_names"
      "''X'' \<notin> set Object_prototype_names" "''Y'' \<notin> set Object_prototype_names"
      "''N'' \<notin> set Object_prototype_names"
    by (simp_all add: Object_prototype_names_def)
  have claim_raws:
    "raw_claim_of utc_host Map.empty cohort_a = - 63"
    "raw_claim_of utc_host Map.empty same_id_project = - 45"
    "raw_claim_of utc_host Map.empty cents_x = - 63"
    "raw_claim_of utc_host Map.empty cents_y = - 45"
    by (simp_all add: raw_claim_of_def raw_claim_def budget_of_def days_late_def
        overrun_amount_def change_order_total_def cohort_a_def same_id_project_def
        cents_x_def cents_y_def log10_hundred)
  have code_raws:
    "raw_composite utc_host Map.empty cohort_a = Fin (- 63)"
    "raw_composite utc_host Map.empty same_id_project = Fin (- 45)"
    "raw_composite utc_host Map.empty cohort_b = Fin (- 45)"
    "raw_composite utc_host Map.empty nan_budget_project = NaN"
    by (simp_all add: raw_composite_def cohort_a_def cohort_b_def same_id_project_def
        nan_budget_project_def scheduleSlipDays_def parseDate_def costOverrun_def prop_or0_def
        names js_sub_def log10_hundred)
  have cents:
    "raw_composite utc_host Map.empty cents_x = Fin (18 * log 10 (131 / 32) - 81)"
    "raw_composite utc_host Map.empty cents_y = Fin (18 * log 10 (131 / 32) - 81)"
    by (simp_all add: raw_composite_def cents_x_def cents_y_def scheduleSlipDays_def
        parseDate_def costOverrun_def prop_or0_def names js_sub_def)
  have ids: "project_id cohort_a = ''A''" "project_id same_id_project = ''A''"
      "project_id cohort_b = ''B''" "project_id cents_x = ''X''" "project_id cents_y = ''Y''"
      "project_id nan_budget_project = ''N''"
    by (simp_all add: cohort_a_def same_id_project_def cohort_b_def cents_x_def cents_y_def
        nan_budget_project_def)
  have same: "computeRiskScores utc_host (\<lambda>i. 1 / 2) [cohort_a, same_id_project] Map.empty
                = [''A'' \<mapsto> Fin 100]"
    by (simp add: computeRiskScores_def code_raws ids d3_min_def d3_max_def js_ge_def js_lt_def
        js_or_def js_sub_def risk_entry_def assign_def clamp_def no_jitter upt_rec)
  have cent: "computeRiskScores utc_host (\<lambda>i. 1 / 2) [cents_x, cents_y] Map.empty
                = [''X'' \<mapsto> Fin 0, ''Y'' \<mapsto> Fin 0]"
    by (simp add: computeRiskScores_def cents ids d3_min_def d3_max_def js_ge_def js_lt_def
        js_or_def js_sub_def risk_entry_def assign_def clamp_def no_jitter upt_rec)
  have nan: "computeRiskScores utc_host (\<lambda>i. 1 / 2) [nan_budget_project, cohort_b] Map.empty
                = [''N'' \<mapsto> NaN, ''B'' \<mapsto> Fin 0]"
    by (simp add: computeRiskScores_def code_raws ids d3_min_def d3_max_def js_ge_def js_lt_def
        js_or_def js_sub_def risk_entry_def assign_def clamp_def no_jitter upt_rec)
  have r1: "Fin 0 \<notin> ran [''A'' \<mapsto> Fin 100]" by (auto simp: ran_def)
  have r2: "Fin 100 \<notin> ran [''X'' \<mapsto> Fin 0, ''Y'' \<mapsto> Fin 0]" by (auto simp: ran_def)
  have r3: "Fin 100 \<notin> ran [''N'' \<mapsto> NaN, ''B'' \<mapsto> Fin 0]" by (auto simp: ran_def)
  show ?thesis
    by (simp only: claim_raws code_raws cents same cent nan) (simp add: r1 r2 r3)
qed

text \<open>
  Outside these statements: for a project whose id is the name of an inherited member,
  \<open>coMap[id]\<close> is that member unless a total was recorded, its raw composite and its rule
  score are \<open>NaN\<close>, and a change order booked to such an id leaves a text, not a number.
\<close>

lemma inherited_id_scores:
  "raw_composite utc_host Map.empty (cohort_a\<lparr>project_id := ''constructor''\<rparr>) = NaN \<and>
   ruleRiskScore utc_host (small_project\<lparr>project_id := ''constructor''\<rparr>) Map.empty = NaN \<and>
   changeOrderTotalsByProject [credit_order\<lparr>co_project_id := ''constructor''\<rparr>] ''constructor''
     = Some NotNum"
  by (simp add: raw_composite_def ruleRiskScore_def cohort_a_def small_project_def
      credit_order_def changeOrderTotalsByProject_def co_add_def co_key_def assign_def
      scheduleSlipDays_def parseDate_def costOverrun_def prop_or0_def Object_prototype_names_def
      js_sub_def)

section \<open>Properties: overrun probability, trend fit and forecast\<close>

subsection \<open>Sums of finite numbers\<close>

lemma foldl_js_add_Fin: "foldl js_add (Fin a) (map Fin vs) = Fin (a + sum_list vs)"
  by (induction vs arbitrary: a) (simp_all add: add.assoc)

lemma finite_list_Fin: "\<forall>x\<in>set xs. isFinite x \<Longrightarrow> xs = map Fin (map fin_val xs)"
  by (induction xs) (auto simp: isFinite_iff)

lemma mean_finite:
  assumes "\<forall>x\<in>set xs. isFinite x"
  shows "mean xs = Fin (mean_real (map fin_val xs))"
proof (cases "xs = []")
  case True
  then show ?thesis by (simp add: mean_def mean_real_def)
next
  case False
  have "foldl js_add (Fin 0) xs = Fin (sum_list (map fin_val xs))"
    using foldl_js_add_Fin[of 0 "map fin_val xs"] finite_list_Fin[OF assms] by simp
  then show ?thesis using False by (simp add: mean_def mean_real_def)
qed

subsection \<open>Portfolio overrun probability\<close>

lemma baseline_fraction_bounds: "0 \<le> baseline_fraction rows \<and> baseline_fraction rows \<le> 1"
proof -
  have "length (filter (\<lambda>r. eligible_row r \<and> over_budget r) rows)
          \<le> length (filter eligible_row rows)"
    using length_filter_le[of over_budget "filter eligible_row rows"]
    by (simp add: conj_commute)
  then show ?thesis
    by (auto simp: baseline_fraction_def Let_def divide_le_eq_1)
qed

lemma eligible_filter:
  "filter (\<lambda>r. isFinite (planned_budget r) \<and> js_gt (planned_budget r) (Fin 0)
                \<and> isFinite (actual_cost r)) rows = filter eligible_row rows"
proof (rule filter_cong[OF refl])
  fix r
  show "(isFinite (planned_budget r) \<and> js_gt (planned_budget r) (Fin 0) \<and> isFinite (actual_cost r))
          = eligible_row r"
    by (cases "planned_budget r"; cases "actual_cost r") (simp_all add: eligible_row_def)
qed

lemma over_filter:
  "filter (\<lambda>r. js_gt (actual_cost r) (planned_budget r)) (filter eligible_row rows)
     = filter (\<lambda>r. eligible_row r \<and> over_budget r) rows"
proof -
  have "(eligible_row r \<and> js_gt (actual_cost r) (planned_budget r))
          = (eligible_row r \<and> over_budget r)" for r
    by (cases "planned_budget r"; cases "actual_cost r")
       (simp_all add: eligible_row_def over_budget_def)
  then show ?thesis unfolding filter_filter by (intro filter_cong refl)
qed

lemma portfolio_base:
  "(let elig = filter (\<lambda>r. isFinite (planned_budget r) \<and> js_gt (planned_budget r) (Fin 0)
                            \<and> isFinite (actual_cost r)) rows;
        over = length (filter (\<lambda>r. js_gt (actual_cost r) (planned_budget r)) elig)
    in if length elig \<noteq> 0 then js_div (Fin (real over)) (Fin (real (length elig))) else Fin 0)
   = Fin (baseline_fraction rows)"
  by (simp only: Let_def eligible_filter over_filter baseline_fraction_def) simp

lemma variance_point:
  "(case (parseDate h (planned_end r), parseDate h (actual_end r)) of
      (Some pe, Some ae) \<Rightarrow>
        js_div (js_sub (date_value ae) (date_value pe)) (Fin (1000 * 60 * 60 * 24))
    | _ \<Rightarrow> NaN)
   = (case schedule_variance h r of None \<Rightarrow> NaN | Some v \<Rightarrow> Fin v)"
  by (cases "newDate h (planned_end r)"; cases "newDate h (actual_end r)")
     (auto simp: schedule_variance_def parseDate_def js_sub_def)

lemma variances_finite:
  "map fin_val
     (filter isFinite
        (map (\<lambda>r. case (parseDate h (planned_end r), parseDate h (actual_end r)) of
                     (Some pe, Some ae) \<Rightarrow>
                       js_div (js_sub (date_value ae) (date_value pe)) (Fin (1000 * 60 * 60 * 24))
                   | _ \<Rightarrow> NaN) rows))
   = schedule_variances h rows"
proof -
  have "map fin_val
          (filter isFinite
             (map (\<lambda>r. case schedule_variance h r of None \<Rightarrow> NaN | Some v \<Rightarrow> Fin v) rows))
        = List.map_filter (schedule_variance h) rows"
    by (induction rows) (simp_all add: map_filter_simps split: option.splits)
  then show ?thesis by (simp only: variance_point schedule_variances_def)
qed

lemma portfolio_schedVar:
  "mean (filter isFinite
           (map (\<lambda>r. case (parseDate h (planned_end r), parseDate h (actual_end r)) of
                        (Some pe, Some ae) \<Rightarrow>
                          js_div (js_sub (date_value ae) (date_value pe)) (Fin (1000 * 60 * 60 * 24))
                      | _ \<Rightarrow> NaN) rows))
   = Fin (mean_real (schedule_variances h rows))"
proof -
  let ?vs = "filter isFinite
           (map (\<lambda>r. case (parseDate h (planned_end r), parseDate h (actual_end r)) of
                        (Some pe, Some ae) \<Rightarrow>
                          js_div (js_sub (date_value ae) (date_value pe)) (Fin (1000 * 60 * 60 * 24))
                      | _ \<Rightarrow> NaN) rows)"
  have "mean ?vs = Fin (mean_real (map fin_val ?vs))" by (rule mean_finite) simp
  then show ?thesis by (simp only: variances_finite)
qed

text \<open>
  Claim C6: the baseline is the fraction of the eligible rows (finite positive budget,
  finite actual cost) whose actual cost exceeds the budget, 0 when there is none; the
  adjusted value is that baseline plus 0.05 when the mean schedule variance of the
  rows with both end dates is positive, minus 0.02 otherwise, clamped to \<open>[0, 1]\<close>; it
  is always in \<open>[0, 1]\<close>, and for no rows both values are 0.
\<close>

theorem portfolio_overrun_estimate:
  "portfolioOverrunProbability h rows =
     (Fin (baseline_fraction rows),
      Fin (min 1 (max 0 (baseline_fraction rows
             + (if 0 < mean_real (schedule_variances h rows) then 0.05 else - 0.02))))) \<and>
   0 \<le> min 1 (max 0 (baseline_fraction rows
             + (if 0 < mean_real (schedule_variances h rows) then 0.05 else - 0.02))) \<and>
   min 1 (max 0 (baseline_fraction rows
             + (if 0 < mean_real (schedule_variances h rows) then 0.05 else - 0.02))) \<le> 1 \<and>
   0 \<le> baseline_fraction rows \<and> baseline_fraction rows \<le> 1 \<and>
   portfolioOverrunProbability h [] = (Fin 0, Fin 0)"
proof -
  have main: "portfolioOverrunProbability h rows =
     (Fin (baseline_fraction rows),
      Fin (min 1 (max 0 (baseline_fraction rows
             + (if 0 < mean_real (schedule_variances h rows) then 0.05 else - 0.02)))))"
    using portfolio_base[of rows] portfolio_schedVar[of h rows]
    by (simp add: portfolioOverrunProbability_def Let_def)
  have empty: "portfolioOverrunProbability h [] = (Fin 0, Fin 0)"
    by (simp add: portfolioOverrunProbability_def mean_def Let_def)
  show ?thesis using main empty baseline_fraction_bounds[of rows] by simp
qed

text \<open>
  Five rows: one over budget and 45 days late, one over budget without dates, one
  without an actual cost, one without a budget, one under budget and 15 days early.
  Three are eligible, two of them over budget, and the mean schedule variance is 15
  days: the baseline is 2/3 and the adjusted value 2/3 + 0.05. Of the early row and the
  dateless row over budget, one of two is over budget and the mean schedule variance
  is -15 days: the baseline is 1/2 and the adjusted value 0.48.
\<close>

theorem portfolio_overrun_estimate_witness:
  "portfolioOverrunProbability utc_host
     [example_project, march_project, nan_cost_project, unbudgeted_project, early_project]
     = (Fin (2 / 3), Fin (43 / 60)) \<and>
   portfolioOverrunProbability utc_host [early_project, march_project]
     = (Fin (1 / 2), Fin (12 / 25))"
proof -
  let ?rows = "[example_project, march_project, nan_cost_project, unbudgeted_project, early_project]"
  let ?two = "[early_project, march_project]"
  have e: "eligible_row example_project" "eligible_row march_project"
      "\<not> eligible_row nan_cost_project" "\<not> eligible_row unbudgeted_project"
      "eligible_row early_project"
    by (simp_all add: eligible_row_def example_project_def march_project_def
        nan_cost_project_def unbudgeted_project_def early_project_def)
  have o: "over_budget example_project" "over_budget march_project"
      "\<not> over_budget early_project"
    by (simp_all add: over_budget_def example_project_def march_project_def early_project_def)
  have v: "schedule_variance utc_host example_project = Some 45"
      "schedule_variance utc_host march_project = None"
      "schedule_variance utc_host nan_cost_project = None"
      "schedule_variance utc_host unbudgeted_project = None"
      "schedule_variance utc_host early_project = Some (- 15)"
    by (simp_all add: schedule_variance_def example_project_def march_project_def
        nan_cost_project_def unbudgeted_project_def early_project_def
        utc_parse_planned utc_parse_actual utc_parse_march2)
  have b1: "baseline_fraction ?rows = 2 / 3" by (simp add: baseline_fraction_def e o)
  have b2: "baseline_fraction ?two = 1 / 2" by (simp add: baseline_fraction_def e o)
  have m1: "mean_real (schedule_variances utc_host ?rows) = 15"
    by (simp add: schedule_variances_def map_filter_simps v mean_real_def)
  have m2: "mean_real (schedule_variances utc_host ?two) = - 15"
    by (simp add: schedule_variances_def map_filter_simps v mean_real_def)
  have r1: "portfolioOverrunProbability utc_host ?rows = (Fin (2 / 3), Fin (43 / 60))"
    using portfolio_overrun_estimate[of utc_host ?rows, THEN conjunct1]
    by (simp add: b1 m1)
  have r2: "portfolioOverrunProbability utc_host ?two = (Fin (1 / 2), Fin (12 / 25))"
    using portfolio_overrun_estimate[of utc_host ?two, THEN conjunct1]
    by (simp add: b2 m2)
  show ?thesis using r1 r2 by simp
qed

subsection \<open>Forecast\<close>

lemma forecast_loop_eq:
  "forecast_loop a b lastYear horizon i (labels, vals) =
     (labels @ map (\<lambda>j. js_add lastYear (Fin (of_int j))) [i..horizon],
      vals @ map (\<lambda>j. js_add a (js_mul b (js_add lastYear (Fin (of_int j))))) [i..horizon])"
proof (induction a b lastYear horizon i "(labels, vals)" arbitrary: labels vals
       rule: forecast_loop.induct)
  case (1 a b lastYear horizon i labels vals)
  show ?case
  proof (cases "i \<le> horizon")
    case True
    then have up: "[i..horizon] = i # [i + 1..horizon]" by (simp add: upto_rec1)
    show ?thesis
      using True "1"[OF True refl] by (simp add: up Let_def del: forecast_loop.simps)
        (subst forecast_loop.simps, simp add: Let_def del: forecast_loop.simps)
  next
    case False
    then show ?thesis by simp
  qed
qed

lemma forecastNextYears_eq:
  "forecastNextYears a b lastYear horizon =
     (map (\<lambda>j. js_add lastYear (Fin (of_int j))) [1..horizon],
      map (\<lambda>j. js_add a (js_mul b (js_add lastYear (Fin (of_int j))))) [1..horizon])"
  by (simp add: forecastNextYears_def forecast_loop_eq del: forecast_loop.simps)

lemma length_upto_one: "length [1..horizon] = nat horizon"
  by simp

subsection \<open>Degenerate fit\<close>

lemma linReg_degenerate:
  assumes "length (Object_keys s) < 2"
  shows "fit_b (linReg s) = Fin 0"
    and "Object_keys s = [] \<Longrightarrow> fit_a (linReg s) = Fin 0"
    and "Object_keys s = [x] \<Longrightarrow> fit_a (linReg s) = js_or (lookup s x) (Fin 0)"
  using assms by (simp_all add: linReg_def Let_def js_or_def)

lemma js_or_self: "\<not> isNaN v \<Longrightarrow> js_or v (Fin 0) = v"
  by (cases v) (simp_all add: js_or_def)

text \<open>
  Claim C5: a series with fewer than two years is fitted with slope 0 and with the
  single observed value as intercept, 0 for the empty series (the single value being a
  number, not \<open>NaN\<close>: the intercept is \<open>ys[0] || 0\<close>); the projection from \<open>a\<close>, \<open>b\<close>, the last year and the horizon
  \<open>h\<close> has exactly \<open>h\<close> labels and \<open>h\<close> values, in order, for the years \<open>lastYear + 1\<close> to
  \<open>lastYear + h\<close>, each value being \<open>a + b * year\<close>; and the one-point series
  \<open>{2022: 500}\<close> projected over 3 years gives 500 for 2023, 2024 and 2025.
\<close>

theorem degenerate_fit_and_projection:
  "(length (Object_keys s) < 2 \<longrightarrow> fit_b (linReg s) = Fin 0) \<and>
   (Object_keys s = [] \<longrightarrow> fit_a (linReg s) = Fin 0) \<and>
   (\<forall>x. Object_keys s = [x] \<and> \<not> isNaN (lookup s x) \<longrightarrow> fit_a (linReg s) = lookup s x) \<and>
   forecastNextYears a b lastYear horizon =
     (map (\<lambda>j. js_add lastYear (Fin (of_int j))) [1..horizon],
      map (\<lambda>j. js_add a (js_mul b (js_add lastYear (Fin (of_int j))))) [1..horizon]) \<and>
   length (fst (forecastNextYears a b lastYear horizon)) = nat horizon \<and>
   length (snd (forecastNextYears a b lastYear horizon)) = nat horizon \<and>
   forecastNextYears (Fin ra) (Fin rb) (Fin (of_int y0)) horizon =
     (map (\<lambda>j. Fin (of_int (y0 + j))) [1..horizon],
      map (\<lambda>j. Fin (ra + rb * of_int (y0 + j))) [1..horizon]) \<and>
   linReg [(2022, Fin 500)] = \<lparr> fit_a = Fin 500, fit_b = Fin 0, fit_xs = [2022], fit_ys = [Fin 500] \<rparr> \<and>
   forecastNextYears (fit_a (linReg [(2022, Fin 500)])) (fit_b (linReg [(2022, Fin 500)])) (Fin 2022) 3 =
     ([Fin 2023, Fin 2024, Fin 2025], [Fin 500, Fin 500, Fin 500]) \<and>
   (\<forall>x. Object_keys s = [x] \<longrightarrow> fit_a (linReg s) = js_or (lookup s x) (Fin 0))"
proof -
  have ex: "linReg [(2022, Fin 500)] =
      \<lparr> fit_a = Fin 500, fit_b = Fin 0, fit_xs = [2022], fit_ys = [Fin 500] \<rparr>"
    by (simp add: linReg_def Object_keys_def lookup_def js_or_def)
  have up3: "[1..3::int] = [1, 2, 3]" by (simp add: upto_rec1)
  have pr: "forecastNextYears (Fin 500) (Fin 0) (Fin 2022) 3 =
     ([Fin 2023, Fin 2024, Fin 2025], [Fin 500, Fin 500, Fin 500])"
    by (simp add: forecastNextYears_eq up3)
  have deg1: "length (Object_keys s) < 2 \<longrightarrow> fit_b (linReg s) = Fin 0"
    using linReg_degenerate(1) by blast
  have deg2: "Object_keys s = [] \<longrightarrow> fit_a (linReg s) = Fin 0"
    using linReg_degenerate(2)[of s] by simp
  have deg3: "\<forall>x. Object_keys s = [x] \<and> \<not> isNaN (lookup s x) \<longrightarrow> fit_a (linReg s) = lookup s x"
    using linReg_degenerate(3)[of s] js_or_self by simp
  have fin: "forecastNextYears (Fin ra) (Fin rb) (Fin (of_int y0)) horizon =
     (map (\<lambda>j. Fin (of_int (y0 + j))) [1..horizon],
      map (\<lambda>j. Fin (ra + rb * of_int (y0 + j))) [1..horizon])"
    by (simp add: forecastNextYears_eq)
  have deg4: "\<forall>x. Object_keys s = [x] \<longrightarrow> fit_a (linReg s) = js_or (lookup s x) (Fin 0)"
    using linReg_degenerate(3)[of s] by simp
  show ?thesis
    using deg1 deg2 deg3 deg4 fin forecastNextYears_eq[of a b lastYear horizon] ex pr
    by (simp del: upto.simps)
qed

theorem degenerate_fit_and_projection_witness:
  "length (Object_keys [(2021, Fin 7)]) < 2 \<and>
   Object_keys [(2021, Fin 7)] = [2021] \<and> \<not> isNaN (lookup [(2021, Fin 7)] 2021) \<and>
   fit_b (linReg [(2021, Fin 7)]) = Fin 0 \<and>
   fit_a (linReg [(2021, Fin 7)]) = Fin 7 \<and>
   fit_a (linReg []) = Fin 0 \<and>
   length (fst (forecastNextYears (Fin 7) (Fin 0) (Fin 2021) 2)) = 2"
proof -
  note t = degenerate_fit_and_projection[of "[(2021, Fin 7)]" "Fin 7" "Fin 0" "Fin 2021" 2 0 0 0]
  note u = degenerate_fit_and_projection[of "[]" "Fin 7" "Fin 0" "Fin 2021" 2 0 0 0]
  have k: "Object_keys [(2021, Fin 7)] = [2021]" by (simp add: Object_keys_def)
  have l: "lookup [(2021, Fin 7)] 2021 = Fin 7" by (simp add: lookup_def)
  have n: "\<not> isNaN (lookup [(2021, Fin 7)] 2021)" by (simp add: l)
  have b: "fit_b (linReg [(2021, Fin 7)]) = Fin 0"
    using t[THEN conjunct1] k by simp
  have a: "fit_a (linReg [(2021, Fin 7)]) = Fin 7"
    using t[THEN conjunct2, THEN conjunct2, THEN conjunct1, rule_format, of 2021] k n l by simp
  have e: "fit_a (linReg []) = Fin 0"
    using u[THEN conjunct2, THEN conjunct1] by (simp add: Object_keys_def)
  have f: "length (fst (forecastNextYears (Fin 7) (Fin 0) (Fin 2021) 2)) = nat 2"
    using t by blast
  show ?thesis using k n b a e f by simp
qed

subsection \<open>Least squares\<close>

lemma sum_sq_shift:
  "sum_list (map (\<lambda>x. (c * x - t)\<^sup>2) xs) =
     c\<^sup>2 * sum_list (map (\<lambda>x. x * x) xs) - 2 * c * t * sum_list xs + int (length xs) * t\<^sup>2"
  for c t :: int
  by (induction xs) (simp_all add: algebra_simps power2_eq_square)

lemma two_distinct_members:
  assumes "distinct xs" "2 \<le> length xs"
  obtains u v where "u \<in> set xs" "v \<in> set xs" "u \<noteq> v"
proof -
  from assms(2) obtain u ys where xs: "xs = u # ys" by (cases xs) auto
  with assms(2) obtain v rest where "ys = v # rest" by (cases ys) auto
  with xs have "xs = u # v # rest" by simp
  with assms(1) have "u \<in> set xs" "v \<in> set xs" "u \<noteq> v" by auto
  then show ?thesis by (rule that)
qed

lemma spread_int_pos:
  fixes xs :: "int list"
  assumes "distinct xs" "2 \<le> length xs"
  shows "1 \<le> int (length xs) * sum_list (map (\<lambda>x. x * x) xs) - (sum_list xs)\<^sup>2"
proof -
  let ?n = "int (length xs)"
  let ?S = "sum_list xs"
  let ?D = "?n * sum_list (map (\<lambda>x. x * x) xs) - ?S\<^sup>2"
  have npos: "0 < ?n" using assms(2) by auto
  have ident: "sum_list (map (\<lambda>x. (?n * x - ?S)\<^sup>2) xs) = ?n * ?D"
    by (simp only: sum_sq_shift) (simp add: algebra_simps power2_eq_square)
  obtain u v where uv: "u \<in> set xs" "v \<in> set xs" "u \<noteq> v"
    using two_distinct_members[OF assms] by blast
  have "?n * u \<noteq> ?n * v" using uv(3) npos by simp
  then obtain z where z: "z \<in> set xs" "?n * z \<noteq> ?S" using uv by metis
  have "0 < (?n * z - ?S)\<^sup>2" using z(2) by simp
  moreover have "(?n * z - ?S)\<^sup>2 \<le> sum_list (map (\<lambda>x. (?n * x - ?S)\<^sup>2) xs)"
  proof -
    have "sum_list (map (\<lambda>x. (?n * x - ?S)\<^sup>2) xs)
          = (?n * z - ?S)\<^sup>2 + sum_list (map (\<lambda>x. (?n * x - ?S)\<^sup>2) (remove1 z xs))"
      using z(1) by (rule sum_list_map_remove1)
    moreover have "0 \<le> sum_list (map (\<lambda>x. (?n * x - ?S)\<^sup>2) (remove1 z xs))"
      by (rule sum_list_nonneg) auto
    ultimately show ?thesis by linarith
  qed
  ultimately have "0 < ?n * ?D" using ident by linarith
  then have "0 < ?D" using npos by (simp add: zero_less_mult_iff)
  then show ?thesis by linarith
qed

lemma of_int_sum_list: "(of_int (sum_list xs) :: real) = sum_list (map of_int xs)"
  by (induction xs) simp_all

lemma of_int_sum_list_sq:
  "(of_int (sum_list (map (\<lambda>x. x * x) xs)) :: real) = sum_list (map (\<lambda>x. of_int x * of_int x) xs)"
  by (induction xs) simp_all

lemma sse_decomp:
  "sse pts a' b' =
     sse pts a b
     + sum_list (map (\<lambda>(x, y). ((a' - a) + (b' - b) * x)\<^sup>2) pts)
     - 2 * (a' - a) * sum_list (map (\<lambda>(x, y). y - (a + b * x)) pts)
     - 2 * (b' - b) * sum_list (map (\<lambda>(x, y). x * (y - (a + b * x))) pts)"
  by (induction pts) (auto simp: sse_def algebra_simps power2_eq_square)

lemma residual_sum:
  "sum_list (map (\<lambda>(x, y). y - (a + b * x)) pts)
     = sum_y pts - real (length pts) * a - b * sum_x pts"
  by (induction pts) (auto simp: sum_x_def sum_y_def algebra_simps)

lemma residual_x_sum:
  "sum_list (map (\<lambda>(x, y). x * (y - (a + b * x))) pts)
     = sum_xy pts - a * sum_x pts - b * sum_xx pts"
  by (induction pts) (auto simp: sum_x_def sum_xy_def sum_xx_def algebra_simps)

lemma normal_equations:
  assumes D: "1 \<le> real (length pts) * sum_xx pts - (sum_x pts)\<^sup>2" and n: "pts \<noteq> []"
  shows "sum_y pts - real (length pts) * intercept_spec pts - slope_spec pts * sum_x pts = 0"
    and "sum_xy pts - intercept_spec pts * sum_x pts - slope_spec pts * sum_xx pts = 0"
proof -
  let ?n = "real (length pts)"
  let ?D = "?n * sum_xx pts - (sum_x pts)\<^sup>2"
  let ?B = "slope_spec pts"
  let ?A = "intercept_spec pts"
  have npos: "0 < ?n" using n by simp
  have mx: "max 1 ?D = ?D" using D by simp
  have BD: "?B * ?D = ?n * sum_xy pts - sum_x pts * sum_y pts"
    using D unfolding slope_spec_def mx by simp
  have nA: "?n * ?A = sum_y pts - ?B * sum_x pts"
    using npos by (simp add: intercept_spec_def)
  show "sum_y pts - ?n * ?A - ?B * sum_x pts = 0" using nA by simp
  have "?n * (sum_xy pts - ?A * sum_x pts - ?B * sum_xx pts)
        = ?n * sum_xy pts - (?n * ?A) * sum_x pts - ?B * (?n * sum_xx pts)"
    by (simp add: algebra_simps)
  also have "\<dots> = (?n * sum_xy pts - sum_x pts * sum_y pts) - ?B * ?D"
    by (simp only: nA) (simp add: algebra_simps power2_eq_square)
  also have "\<dots> = 0" using BD by simp
  finally show "sum_xy pts - ?A * sum_x pts - ?B * sum_xx pts = 0"
    using npos by simp
qed

lemma least_squares_minimal:
  assumes D: "1 \<le> real (length pts) * sum_xx pts - (sum_x pts)\<^sup>2" and n: "pts \<noteq> []"
  shows "sse pts (intercept_spec pts) (slope_spec pts) \<le> sse pts a' b'"
proof -
  let ?A = "intercept_spec pts" and ?B = "slope_spec pts"
  have r1: "sum_list (map (\<lambda>(x, y). y - (?A + ?B * x)) pts) = 0"
    using normal_equations(1)[OF D n] by (simp add: residual_sum)
  have r2: "sum_list (map (\<lambda>(x, y). x * (y - (?A + ?B * x))) pts) = 0"
    using normal_equations(2)[OF D n] by (simp add: residual_x_sum)
  have "0 \<le> sum_list (map (\<lambda>(x, y). ((a' - ?A) + (b' - ?B) * x)\<^sup>2) pts)"
    by (rule sum_list_nonneg) auto
  then show ?thesis
    using sse_decomp[of pts a' b' ?A ?B] by (simp add: r1 r2)
qed


lemma foldl_squares_Fin:
  "foldl (\<lambda>a b. js_add a (js_mul b b)) (Fin a0) (map Fin rs)
     = Fin (a0 + sum_list (map (\<lambda>x. x * x) rs))"
  by (induction rs arbitrary: a0) (simp_all add: add.assoc)

lemma foldl_products_Fin:
  "k \<le> length xr \<Longrightarrow> k \<le> length yr \<Longrightarrow>
   foldl (\<lambda>a i. js_add a (js_mul (map Fin xr ! i) (map Fin yr ! i))) (Fin a0) [0..<k]
     = Fin (a0 + sum_list (map (\<lambda>i. xr ! i * yr ! i) [0..<k]))"
  by (induction k) simp_all

lemma sum_products_index:
  "sum_list (map (\<lambda>i. f (xs ! i) * g (xs ! i)) [0..<length xs])
     = sum_list (map (\<lambda>x. f x * g x) xs)"
proof -
  have "map (\<lambda>i. f (xs ! i) * g (xs ! i)) [0..<length xs] = map (\<lambda>x. f x * g x) xs"
    by (rule nth_equalityI) simp_all
  then show ?thesis by simp
qed

lemma points_sums:
  "sum_x (points s) = sum_list (map of_int (sort (Object_keys s)))"
  "sum_y (points s) = sum_list (map (\<lambda>x. fin_val (lookup s x)) (sort (Object_keys s)))"
  "sum_xx (points s) = sum_list (map (\<lambda>x. of_int x * of_int x) (sort (Object_keys s)))"
  "sum_xy (points s) = sum_list (map (\<lambda>x. of_int x * fin_val (lookup s x)) (sort (Object_keys s)))"
  "length (points s) = length (Object_keys s)"
  by (simp_all add: points_def sum_x_def sum_y_def sum_xx_def sum_xy_def comp_def)

lemma linReg_sums:
  assumes fin: "\<forall>x\<in>set (Object_keys s). isFinite (lookup s x)"
  shows "foldl js_add (Fin 0) (map (\<lambda>x. Fin (of_int x)) (sort (Object_keys s)))
           = Fin (sum_x (points s))"
    and "foldl js_add (Fin 0) (map (lookup s) (sort (Object_keys s))) = Fin (sum_y (points s))"
    and "foldl (\<lambda>a b. js_add a (js_mul b b)) (Fin 0)
           (map (\<lambda>x. Fin (of_int x)) (sort (Object_keys s))) = Fin (sum_xx (points s))"
    and "foldl (\<lambda>a i. js_add a (js_mul (map (\<lambda>x. Fin (of_int x)) (sort (Object_keys s)) ! i)
                                       (map (lookup s) (sort (Object_keys s)) ! i)))
           (Fin 0) [0..<length (sort (Object_keys s))] = Fin (sum_xy (points s))"
proof -
  let ?xs = "sort (Object_keys s)"
  let ?xr = "map of_int ?xs :: real list"
  let ?yr = "map (\<lambda>x. fin_val (lookup s x)) ?xs"
  have xn: "map (\<lambda>x. Fin (of_int x)) ?xs = map Fin ?xr" by simp
  have "\<forall>x\<in>set ?xs. lookup s x = Fin (fin_val (lookup s x))"
    using fin by (auto simp: isFinite_iff)
  then have ys: "map (lookup s) ?xs = map Fin ?yr" by simp
  show "foldl js_add (Fin 0) (map (\<lambda>x. Fin (of_int x)) ?xs) = Fin (sum_x (points s))"
    by (simp only: xn foldl_js_add_Fin points_sums) simp
  show "foldl js_add (Fin 0) (map (lookup s) ?xs) = Fin (sum_y (points s))"
    by (simp only: ys foldl_js_add_Fin points_sums) simp
  show "foldl (\<lambda>a b. js_add a (js_mul b b)) (Fin 0) (map (\<lambda>x. Fin (of_int x)) ?xs)
          = Fin (sum_xx (points s))"
    by (simp only: xn foldl_squares_Fin points_sums) (simp add: comp_def)
  have "foldl (\<lambda>a i. js_add a (js_mul (map Fin ?xr ! i) (map Fin ?yr ! i))) (Fin 0) [0..<length ?xs]
          = Fin (0 + sum_list (map (\<lambda>i. ?xr ! i * ?yr ! i) [0..<length ?xs]))"
    by (rule foldl_products_Fin) simp_all
  also have "sum_list (map (\<lambda>i. ?xr ! i * ?yr ! i) [0..<length ?xs])
          = sum_list (map (\<lambda>i. of_int (?xs ! i) * fin_val (lookup s (?xs ! i))) [0..<length ?xs])"
    by (rule arg_cong[where f = sum_list]) simp
  also have "\<dots> = sum_xy (points s)"
    by (simp only: sum_products_index[of "\<lambda>x. of_int x" ?xs "\<lambda>x. fin_val (lookup s x)"] points_sums)
  finally show "foldl (\<lambda>a i. js_add a (js_mul (map (\<lambda>x. Fin (of_int x)) ?xs ! i)
                                       (map (lookup s) ?xs ! i)))
           (Fin 0) [0..<length ?xs] = Fin (sum_xy (points s))"
    by (simp only: xn ys) simp
qed

lemma linReg_fit:
  assumes n2: "2 \<le> length (Object_keys s)"
      and fin: "\<forall>x\<in>set (Object_keys s). isFinite (lookup s x)"
  shows "fit_b (linReg s) = Fin (slope_spec (points s))"
    and "fit_a (linReg s) = Fin (intercept_spec (points s))"
proof -
  let ?pts = "points s"
  let ?n = "real (length (sort (Object_keys s)))"
  let ?D = "?n * sum_xx ?pts - sum_x ?pts * sum_x ?pts"
  let ?B = "(?n * sum_xy ?pts - sum_x ?pts * sum_y ?pts) / max 1 ?D"
  have not_small: "\<not> length (sort (Object_keys s)) < 2" using n2 by simp
  have npos: "?n \<noteq> 0" using n2 by auto
  have dpos: "max 1 ?D \<noteq> 0" by simp
  have b_eq: "js_div (js_sub (js_mul (Fin ?n) (Fin (sum_xy ?pts))) (js_mul (Fin (sum_x ?pts)) (Fin (sum_y ?pts))))
                (Math_max (Fin 1) (js_sub (js_mul (Fin ?n) (Fin (sum_xx ?pts)))
                                         (js_mul (Fin (sum_x ?pts)) (Fin (sum_x ?pts)))))
              = Fin ?B"
    using dpos by (simp add: js_sub_def)
  have a_eq: "js_div (js_sub (Fin (sum_y ?pts)) (js_mul (Fin ?B) (Fin (sum_x ?pts)))) (Fin ?n)
              = Fin ((sum_y ?pts - ?B * sum_x ?pts) / ?n)"
    using npos by (simp add: js_sub_def)
  have lr: "linReg s = \<lparr> fit_a = Fin ((sum_y ?pts - ?B * sum_x ?pts) / ?n), fit_b = Fin ?B,
                          fit_xs = sort (Object_keys s),
                          fit_ys = map (lookup s) (sort (Object_keys s)) \<rparr>"
    unfolding linReg_def Let_def
    by (simp only: not_small if_False linReg_sums[OF fin] b_eq a_eq)
  have B: "?B = slope_spec ?pts"
    by (simp add: slope_spec_def points_sums power2_eq_square)
  have A: "(sum_y ?pts - ?B * sum_x ?pts) / ?n = intercept_spec ?pts"
    by (simp only: B) (simp add: intercept_spec_def points_sums)
  show "fit_b (linReg s) = Fin (slope_spec (points s))" by (simp only: lr fit.simps B)
  show "fit_a (linReg s) = Fin (intercept_spec (points s))" by (simp only: lr fit.simps A)
qed

lemma points_spread:
  assumes n2: "2 \<le> length (Object_keys s)"
  shows "1 \<le> real (length (points s)) * sum_xx (points s) - (sum_x (points s))\<^sup>2"
proof -
  let ?xs = "sort (Object_keys s)"
  have d: "distinct ?xs" by (simp add: Object_keys_def)
  have l: "2 \<le> length ?xs" using n2 by simp
  have "(1::real) \<le> of_int (int (length ?xs) * sum_list (map (\<lambda>x. x * x) ?xs) - (sum_list ?xs)\<^sup>2)"
    using spread_int_pos[OF d l] by (simp only: of_int_1_le_iff)
  then show ?thesis
    by (simp add: points_sums of_int_sum_list of_int_sum_list_sq comp_def)
qed

lemma centred_products:
  "sum_list (map (\<lambda>(x, y). (x - m) * (y - k)) pts)
     = sum_xy pts - m * sum_y pts - k * sum_x pts + real (length pts) * m * k"
  by (induction pts) (auto simp: sum_x_def sum_y_def sum_xy_def algebra_simps)

lemma centred_squares:
  "sum_list (map (\<lambda>(x, y). (x - m)\<^sup>2) pts)
     = sum_xx pts - 2 * m * sum_x pts + real (length pts) * m\<^sup>2"
  by (induction pts) (auto simp: sum_x_def sum_xx_def algebra_simps power2_eq_square)

lemma means_of_points:
  "pts \<noteq> [] \<Longrightarrow> mean_real (map fst pts) = sum_x pts / real (length pts)"
  "pts \<noteq> [] \<Longrightarrow> mean_real (map snd pts) = sum_y pts / real (length pts)"
  by (simp_all add: mean_real_def sum_x_def sum_y_def case_prod_unfold)

lemma ols_reference:
  assumes D: "1 \<le> real (length pts) * sum_xx pts - (sum_x pts)\<^sup>2" and n: "pts \<noteq> []"
  shows "slope_spec pts = ols_slope pts" and "intercept_spec pts = ols_intercept pts"
proof -
  let ?n = "real (length pts)"
  let ?D = "?n * sum_xx pts - (sum_x pts)\<^sup>2"
  let ?N = "?n * sum_xy pts - sum_x pts * sum_y pts"
  have npos: "0 < ?n" using n by simp
  have "sum_list (map (\<lambda>(x, y). (x - sum_x pts / ?n) * (y - sum_y pts / ?n)) pts)
        = sum_xy pts - sum_x pts / ?n * sum_y pts - sum_y pts / ?n * sum_x pts
          + ?n * (sum_x pts / ?n) * (sum_y pts / ?n)"
    by (rule centred_products)
  also have "\<dots> = ?N / ?n" using npos by (simp add: field_simps)
  finally have cov:
    "sum_list (map (\<lambda>(x, y). (x - sum_x pts / ?n) * (y - sum_y pts / ?n)) pts) = ?N / ?n" .
  have "sum_list (map (\<lambda>(x, y). (x - sum_x pts / ?n)\<^sup>2) pts)
        = sum_xx pts - 2 * (sum_x pts / ?n) * sum_x pts + ?n * (sum_x pts / ?n)\<^sup>2"
    by (rule centred_squares)
  also have "\<dots> = ?D / ?n" using npos by (simp add: field_simps power2_eq_square)
  finally have var: "sum_list (map (\<lambda>(x, y). (x - sum_x pts / ?n)\<^sup>2) pts) = ?D / ?n" .
  have "ols_slope pts = (?N / ?n) / (?D / ?n)"
    unfolding ols_slope_def Let_def by (simp only: means_of_points[OF n] cov var)
  also have "\<dots> = ?N / ?D" using npos by simp
  also have "\<dots> = slope_spec pts" using D by (simp add: slope_spec_def)
  finally show s: "slope_spec pts = ols_slope pts" by simp
  show "intercept_spec pts = ols_intercept pts"
    unfolding ols_intercept_def intercept_spec_def
    by (simp only: means_of_points[OF n] s[symmetric]) (simp add: diff_divide_distrib)
qed

text \<open>
  Claim C4: for a series with at least two distinct integer years and finite values,
  the fit returns the slope \<open>(n Sxy - Sx Sy) / max 1 (n Sxx - Sx^2)\<close> and the intercept
  \<open>(Sy - slope Sx) / n\<close>; the guarded denominator is at least 1, so the guard changes
  nothing; no line has a smaller sum of squared residuals over the points; and slope
  and intercept are those of the reference least-squares line through the means.
\<close>

theorem linReg_least_squares:
  assumes "2 \<le> length (Object_keys s)"
      and "\<forall>x\<in>set (Object_keys s). isFinite (lookup s x)"
  shows "fit_b (linReg s) = Fin (slope_spec (points s)) \<and>
         fit_a (linReg s) = Fin (intercept_spec (points s)) \<and>
         1 \<le> real (length (points s)) * sum_xx (points s) - (sum_x (points s))\<^sup>2 \<and>
         (\<forall>a' b'. sse (points s) (intercept_spec (points s)) (slope_spec (points s))
                    \<le> sse (points s) a' b') \<and>
         slope_spec (points s) = ols_slope (points s) \<and>
         intercept_spec (points s) = ols_intercept (points s)"
proof -
  have "2 \<le> length (points s)" using assms(1) by (simp add: points_sums)
  then have ne: "points s \<noteq> []" by auto
  note D = points_spread[OF assms(1)]
  show ?thesis
    using linReg_fit[OF assms] D least_squares_minimal[OF D ne] ols_reference[OF D ne]
    by blast
qed


lemma example_series_points:
  "Object_keys example_series = [2022, 2020, 2021]"
  "points example_series = [(2020, 1), (2021, 3), (2022, 5)]"
  by (simp_all add: example_series_def Object_keys_def points_def lookup_def)

lemma example_series_fit:
  "slope_spec (points example_series) = 2"
  "intercept_spec (points example_series) = - 4039"
  by (simp_all add: example_series_points intercept_spec_def slope_spec_def
      sum_x_def sum_y_def sum_xx_def sum_xy_def)

theorem linReg_least_squares_witness:
  "2 \<le> length (Object_keys example_series) \<and>
   isFinite (lookup example_series 2020) \<and> isFinite (lookup example_series 2021) \<and>
   isFinite (lookup example_series 2022) \<and>
   fit_b (linReg example_series) = Fin 2 \<and>
   fit_a (linReg example_series) = Fin (- 4039) \<and>
   sse (points example_series) (- 4039) 2 \<le> sse (points example_series) 0 0 \<and>
   ols_slope (points example_series) = 2"
proof -
  have h1: "2 \<le> length (Object_keys example_series)" by (simp add: example_series_points)
  have f: "isFinite (lookup example_series 2020)" "isFinite (lookup example_series 2021)"
    "isFinite (lookup example_series 2022)"
    by (simp_all add: example_series_def lookup_def)
  then have h2: "\<forall>x\<in>set (Object_keys example_series). isFinite (lookup example_series x)"
    by (simp add: example_series_points)
  note t = linReg_least_squares[OF h1 h2]
  have b: "fit_b (linReg example_series) = Fin 2" using t by (simp add: example_series_fit)
  have a: "fit_a (linReg example_series) = Fin (- 4039)" using t by (simp add: example_series_fit)
  have m: "sse (points example_series) (- 4039) 2 \<le> sse (points example_series) 0 0"
    using t[THEN conjunct2, THEN conjunct2, THEN conjunct2, THEN conjunct1, rule_format, of 0 0]
    by (simp only: example_series_fit)
  have o: "ols_slope (points example_series) = 2" using t by (simp add: example_series_fit)
  show ?thesis using h1 f b a m o by simp
qed

section \<open>Properties of the rollups\<close>

subsection \<open>Objects keyed by year\<close>

lemma js_or_Fin0: "js_or (Fin x) (Fin 0) = Fin x"
  by (simp add: js_or_def)

lemma map_of_obj_add:
  "map_of (obj_add m k v) y =
     (if y = k then Some (js_add (get_or0 (map_of m) k) v) else map_of m y)"
  by (simp add: obj_add_def update_conv)

lemma map_of_fold_update:
  "map_of (foldl (\<lambda>out y. AList.update y (g y) out) init ks) y =
     (if y \<in> set ks then Some (g y) else map_of init y)"
  by (induction ks arbitrary: init) (simp_all add: update_conv)

lemma map_of_divide_by_counts:
  "map_of (divide_by_counts sums' counts) y =
     (case map_of sums' y of
        None \<Rightarrow> None
      | Some s \<Rightarrow> Some (js_div s (to_number (map_of counts y))))"
proof (cases "map_of sums' y")
  case None
  then have "y \<notin> set (map fst sums')" by (simp add: map_of_eq_None_iff)
  then show ?thesis using None by (simp add: divide_by_counts_def map_of_fold_update)
next
  case (Some s)
  then have "y \<in> set (map fst sums')" by (metis map_of_eq_None_iff option.distinct(1) set_map)
  then show ?thesis using Some by (simp add: divide_by_counts_def map_of_fold_update)
qed

subsection \<open>Mean by year\<close>

lemma year_values_snoc:
  "year_values h accessor (rows @ [r]) y =
     year_values h accessor rows y
     @ (if isFinite (accessor r) \<and> year_of h (start_date r) = y then [fin_val (accessor r)] else [])"
  by (simp add: year_values_def)

lemma year_fold_invariant:
  "foldl (rollupAvgByYear_step h accessor) ([], []) rows = (sums', counts) \<Longrightarrow>
   map_of sums' y =
     (if year_values h accessor rows y = [] then None
      else Some (Fin (sum_list (year_values h accessor rows y)))) \<and>
   map_of counts y =
     (if year_values h accessor rows y = [] then None
      else Some (Fin (real (length (year_values h accessor rows y)))))"
proof (induction rows arbitrary: sums' counts y rule: rev_induct)
  case Nil
  then show ?case by (auto simp: year_values_def)
next
  case (snoc r rows)
  obtain s0 c0 where st: "foldl (rollupAvgByYear_step h accessor) ([], []) rows = (s0, c0)"
    by (cases "foldl (rollupAvgByYear_step h accessor) ([], []) rows") auto
  note IH = snoc.IH[OF st]
  from snoc.prems st
  have step: "rollupAvgByYear_step h accessor (s0, c0) r = (sums', counts)" by simp
  show ?case
  proof (cases "isFinite (accessor r)")
    case False
    then have "(sums', counts) = (s0, c0)"
      using step by (simp add: rollupAvgByYear_step_def)
    then show ?thesis using IH[of y] False by (simp add: year_values_snoc)
  next
    case True
    then obtain a where a: "accessor r = Fin a" by (auto simp: isFinite_iff)
    let ?y0 = "year_of h (start_date r)"
    have upd: "sums' = obj_add s0 ?y0 (Fin a)" "counts = obj_add c0 ?y0 (Fin 1)"
      using step a by (simp_all add: rollupAvgByYear_step_def Let_def)
    show ?thesis
    proof (cases "y = ?y0")
      case False
      then show ?thesis
        using IH[of y] by (simp add: upd map_of_obj_add year_values_snoc)
    next
      case y: True
      have s: "get_or0 (map_of s0) ?y0 = Fin (sum_list (year_values h accessor rows ?y0))"
        using IH[of ?y0] by (auto simp: get_or0_def js_or_Fin0)
      have c: "get_or0 (map_of c0) ?y0 = Fin (real (length (year_values h accessor rows ?y0)))"
        using IH[of ?y0] by (auto simp: get_or0_def js_or_Fin0)
      show ?thesis
        by (simp add: y upd map_of_obj_add s c year_values_snoc a)
    qed
  qed
qed

lemma rollupAvgByYear_lookup:
  "map_of (rollupAvgByYear h rows accessor) y =
     (if year_values h accessor rows y = [] then None
      else Some (Fin (mean_real (year_values h accessor rows y))))"
proof -
  obtain s c where st: "foldl (rollupAvgByYear_step h accessor) ([], []) rows = (s, c)"
    by (cases "foldl (rollupAvgByYear_step h accessor) ([], []) rows") auto
  note inv = year_fold_invariant[OF st, of y]
  show ?thesis
    using inv by (simp add: rollupAvgByYear_def st map_of_divide_by_counts mean_real_def)
qed

lemma rollupAvgActualCostByYear_eq:
  "rollupAvgActualCostByYear h rows = rollupAvgByYear h rows actual_cost"
proof -
  have "rollupAvgActualCostByYear_step h = rollupAvgByYear_step h actual_cost"
    by (intro ext)
      (simp add: rollupAvgActualCostByYear_step_def rollupAvgByYear_step_def Let_def
         split: prod.splits)
  then show ?thesis by (simp add: rollupAvgActualCostByYear_def rollupAvgByYear_def)
qed

lemma avgActualCostByYear_eq:
  "avgActualCostByYear h rows = rollupAvgByYear h rows actual_cost"
proof -
  have "avgActualCostByYear_step h = rollupAvgByYear_step h actual_cost"
    by (intro ext)
      (simp add: avgActualCostByYear_step_def rollupAvgByYear_step_def Let_def
         split: prod.splits)
  then show ?thesis by (simp add: avgActualCostByYear_def rollupAvgByYear_def)
qed

subsection \<open>Mean by month\<close>

lemma month_values_snoc:
  "month_values h accessor year (rows @ [r]) m =
     month_values h accessor year rows m
     @ (if isFinite (accessor r) \<and> in_month h year m (start_date r)
        then [fin_val (accessor r)] else [])"
  by (simp add: month_values_def)

lemma month_fold_invariant:
  "foldl (rollupAvgByMonth_step h year accessor)
     (replicate 12 (Fin 0), replicate 12 (Fin 0)) rows = (sums', counts) \<Longrightarrow>
   length sums' = 12 \<and> length counts = 12 \<and>
   (\<forall>m<12. sums' ! m = Fin (sum_list (month_values h accessor year rows m)) \<and>
            counts ! m = Fin (real (length (month_values h accessor year rows m))))"
proof (induction rows arbitrary: sums' counts rule: rev_induct)
  case Nil
  then show ?case by (auto simp: month_values_def)
next
  case (snoc r rows)
  obtain s0 c0 where st: "foldl (rollupAvgByMonth_step h year accessor)
      (replicate 12 (Fin 0), replicate 12 (Fin 0)) rows = (s0, c0)"
    by (cases "foldl (rollupAvgByMonth_step h year accessor)
      (replicate 12 (Fin 0), replicate 12 (Fin 0)) rows") auto
  note IH = snoc.IH[OF st]
  from snoc.prems st
  have step: "rollupAvgByMonth_step h year accessor (s0, c0) r = (sums', counts)" by simp
  let ?counted = "\<lambda>t. js_strict_eq (getFullYear h (Date t)) year \<and> isFinite (accessor r)"
  show ?case
  proof (cases "\<exists>t. newDate h (start_date r) = Date t \<and> ?counted t")
    case False
    then have same: "(sums', counts) = (s0, c0)"
      using step
      by (cases "newDate h (start_date r)")
         (auto simp: rollupAvgByMonth_step_def Let_def split: if_splits)
    have "month_values h accessor year (rows @ [r]) m = month_values h accessor year rows m" for m
      using False by (auto simp: month_values_snoc in_month_def split: jsdate.splits)
    then show ?thesis using IH same by simp
  next
    case True
    then obtain t a where t: "newDate h (start_date r) = Date t"
      "js_strict_eq (getFullYear h (Date t)) year" and a: "accessor r = Fin a"
      by (auto simp: isFinite_iff)
    let ?m0 = "getMonth h t"
    have m0: "?m0 < 12" by (simp add: getMonth_def)
    have upd: "sums' = s0[?m0 := js_add (s0 ! ?m0) (Fin a)]"
      "counts = c0[?m0 := js_add (c0 ! ?m0) (Fin 1)]"
      using step t a by (simp_all add: rollupAvgByMonth_step_def Let_def)
    have vals: "month_values h accessor year (rows @ [r]) m =
        month_values h accessor year rows m @ (if m = ?m0 then [a] else [])" for m
      using t a by (auto simp: month_values_snoc in_month_def)
    show ?thesis
    proof (intro conjI allI impI)
      show "length sums' = 12" "length counts = 12" using IH by (simp_all add: upd)
    next
      fix m :: nat
      assume m: "m < 12"
      show "sums' ! m = Fin (sum_list (month_values h accessor year (rows @ [r]) m))"
        using IH m m0 by (cases "m = ?m0") (simp_all add: upd vals)
      show "counts ! m = Fin (real (length (month_values h accessor year (rows @ [r]) m)))"
        using IH m m0 by (cases "m = ?m0") (simp_all add: upd vals)
    qed
  qed
qed

lemma rollupAvgByMonth_nth:
  assumes "m < 12"
  shows "length (rollupAvgByMonth h rows year accessor) = 12"
    and "rollupAvgByMonth h rows year accessor ! m =
           (if month_values h accessor year rows m = [] then Fin 0
            else Fin (mean_real (month_values h accessor year rows m)))"
proof -
  obtain s c where st: "foldl (rollupAvgByMonth_step h year accessor)
      (replicate 12 (Fin 0), replicate 12 (Fin 0)) rows = (s, c)"
    by (cases "foldl (rollupAvgByMonth_step h year accessor)
      (replicate 12 (Fin 0), replicate 12 (Fin 0)) rows") auto
  note inv = month_fold_invariant[OF st]
  show "length (rollupAvgByMonth h rows year accessor) = 12"
    using inv by (simp add: rollupAvgByMonth_def st divide_months_def)
  show "rollupAvgByMonth h rows year accessor ! m =
           (if month_values h accessor year rows m = [] then Fin 0
            else Fin (mean_real (month_values h accessor year rows m)))"
    using inv assms by (simp add: rollupAvgByMonth_def st divide_months_def mean_real_def)
qed

lemma rollupAvgActualCostByMonth_eq:
  "rollupAvgActualCostByMonth h rows year = rollupAvgByMonth h rows year actual_cost"
proof -
  have "rollupAvgActualCostByMonth_step h year = rollupAvgByMonth_step h year actual_cost"
    by (intro ext)
      (simp add: rollupAvgActualCostByMonth_step_def rollupAvgByMonth_step_def Let_def
         split: prod.splits jsdate.splits)
  then show ?thesis by (simp add: rollupAvgActualCostByMonth_def rollupAvgByMonth_def)
qed

subsection \<open>Change-order cost by month and by year, and safe sums\<close>

lemma co_month_costs_snoc:
  "co_month_costs h year (rows @ [r]) m =
     co_month_costs h year rows m
     @ (if isFinite (co_cost r) \<and> in_month h year m (co_date r) then [fin_val (co_cost r)] else [])"
  by (simp add: co_month_costs_def)

lemma coCostByMonth_invariant:
  "length (coCostByMonth h rows year) = 12 \<and>
   (\<forall>m<12. coCostByMonth h rows year ! m = Fin (sum_list (co_month_costs h year rows m)))"
proof (induction rows rule: rev_induct)
  case Nil
  then show ?case by (auto simp: coCostByMonth_def co_month_costs_def)
next
  case (snoc r rows)
  let ?arr = "coCostByMonth h rows year"
  have step: "coCostByMonth h (rows @ [r]) year = coCostByMonth_step h year ?arr r"
    by (simp add: coCostByMonth_def)
  show ?case
  proof (cases "\<exists>t. newDate h (co_date r) = Date t
                  \<and> js_strict_eq (getFullYear h (Date t)) year \<and> isFinite (co_cost r)")
    case False
    then have same: "coCostByMonth h (rows @ [r]) year = ?arr"
      unfolding step by (auto simp: coCostByMonth_step_def split: jsdate.splits)
    have "co_month_costs h year (rows @ [r]) m = co_month_costs h year rows m" for m
      using False by (auto simp: co_month_costs_snoc in_month_def split: jsdate.splits)
    then show ?thesis using snoc.IH same by simp
  next
    case True
    then obtain t a where t: "newDate h (co_date r) = Date t"
      "js_strict_eq (getFullYear h (Date t)) year" and a: "co_cost r = Fin a"
      by (auto simp: isFinite_iff)
    let ?m0 = "getMonth h t"
    have m0: "?m0 < 12" by (simp add: getMonth_def)
    have upd: "coCostByMonth h (rows @ [r]) year = ?arr[?m0 := js_add (?arr ! ?m0) (Fin a)]"
      unfolding step using t a by (simp add: coCostByMonth_step_def Let_def)
    have vals: "co_month_costs h year (rows @ [r]) m =
        co_month_costs h year rows m @ (if m = ?m0 then [a] else [])" for m
      using t a by (auto simp: co_month_costs_snoc in_month_def)
    show ?thesis
    proof (intro conjI allI impI)
      show "length (coCostByMonth h (rows @ [r]) year) = 12" using snoc.IH by (simp add: upd)
    next
      fix m :: nat
      assume m: "m < 12"
      show "coCostByMonth h (rows @ [r]) year ! m
            = Fin (sum_list (co_month_costs h year (rows @ [r]) m))"
        using snoc.IH m m0 by (cases "m = ?m0") (simp_all add: upd vals)
    qed
  qed
qed

lemma co_year_costs_snoc:
  "co_year_costs h (rows @ [r]) y =
     co_year_costs h rows y
     @ (if isFinite (co_cost r) \<and> dated_in h y r then [fin_val (co_cost r)] else [])"
  by (simp add: co_year_costs_def)

lemma coCostByYear_lookup:
  "map_of (coCostByYear h rows) y =
     (if filter (dated_in h y) rows = [] then None
      else Some (Fin (sum_list (co_year_costs h rows y))))"
proof (induction rows arbitrary: y rule: rev_induct)
  case Nil
  then show ?case by (simp add: coCostByYear_def)
next
  case (snoc r rows)
  let ?out = "coCostByYear h rows"
  have step: "coCostByYear h (rows @ [r]) = coCostByYear_step h ?out r"
    by (simp add: coCostByYear_def)
  show ?case
  proof (cases "newDate h (co_date r)")
    case InvalidDate
    then have "coCostByYear h (rows @ [r]) = ?out"
      unfolding step by (simp add: coCostByYear_step_def)
    moreover have "\<not> dated_in h y r" using InvalidDate by (simp add: dated_in_def)
    ultimately show ?thesis using snoc.IH[of y] by (simp add: co_year_costs_snoc)
  next
    case (Date t)
    let ?y0 = "getFullYear h (Date t)"
    let ?c = "if isFinite (co_cost r) then co_cost r else Fin 0"
    have upd: "coCostByYear h (rows @ [r]) = obj_add ?out ?y0 ?c"
      unfolding step using Date by (simp add: coCostByYear_step_def Let_def)
    have d: "dated_in h y r \<longleftrightarrow> y = ?y0" using Date by (auto simp: dated_in_def)
    have c: "?c = Fin (sum_list (if isFinite (co_cost r) then [fin_val (co_cost r)] else []))"
      by (auto simp: isFinite_iff)
    have g: "get_or0 (map_of ?out) ?y0 = Fin (sum_list (co_year_costs h rows ?y0))"
      using snoc.IH[of ?y0]
      by (auto simp: get_or0_def js_or_Fin0 co_year_costs_def filter_empty_conv)
    show ?thesis
    proof (cases "y = ?y0")
      case False
      then show ?thesis using snoc.IH[of y] d by (simp add: upd map_of_obj_add co_year_costs_snoc)
    next
      case True
      then show ?thesis using d
        by (simp only: upd map_of_obj_add g c) (simp add: co_year_costs_snoc)
    qed
  qed
qed

lemma sumSafe_fold:
  "foldl (\<lambda>acc v. if isFinite v then js_add acc v else acc) (Fin a) arr
     = Fin (a + sum_list (map fin_val (filter isFinite arr)))"
  by (induction arr arbitrary: a) (auto simp: isFinite_iff add.assoc)

lemma sumSafe_eq: "sumSafe arr = Fin (sum_list (map fin_val (filter isFinite arr)))"
  by (simp add: sumSafe_def sumSafe_fold)

lemma avgScheduleVarianceByYear_eq:
  "avgScheduleVarianceByYear h rows = rollupAvgByYear h rows (schedVarAccessor h)"
proof -
  have "avgScheduleVarianceByYear_step h acc r = rollupAvgByYear_step h (schedVarAccessor h) acc r"
    for acc r
  proof (cases "parseDate h (planned_end r)"; cases "parseDate h (actual_end r)")
    fix pe ae
    assume p: "parseDate h (planned_end r) = Some pe" and a: "parseDate h (actual_end r) = Some ae"
    show ?thesis
    proof (cases "isNaN (date_value pe) \<or> isNaN (date_value ae)")
      case True
      then show ?thesis
        by (auto simp: avgScheduleVarianceByYear_step_def rollupAvgByYear_step_def
            schedVarAccessor_def p a split: prod.splits)
    next
      case False
      then have "isFinite (js_div (js_sub (date_value ae) (date_value pe)) MS_PER_DAY)"
        by (simp add: slip_quotient_finite)
      then show ?thesis using False
        by (auto simp: avgScheduleVarianceByYear_step_def rollupAvgByYear_step_def
            schedVarAccessor_def p a Let_def split: prod.splits)
    qed
  qed (auto simp: avgScheduleVarianceByYear_step_def rollupAvgByYear_step_def
         schedVarAccessor_def split: prod.splits)
  then have "avgScheduleVarianceByYear_step h = rollupAvgByYear_step h (schedVarAccessor h)"
    by (intro ext)
  then show ?thesis by (simp add: avgScheduleVarianceByYear_def rollupAvgByYear_def)
qed

lemma projectCostVarianceRatio_finite_iff:
  "isFinite (projectCostVarianceRatio r) \<longleftrightarrow>
     isFinite (planned_budget r) \<and> js_gt (planned_budget r) (Fin 0) \<and> isFinite (actual_cost r)"
  by (cases "planned_budget r"; cases "actual_cost r")
     (auto simp: projectCostVarianceRatio_def Let_def js_sub_def)

subsection \<open>Non-finite rows\<close>

text \<open>
  Stated as skipping: a mean rollup gives the same answers on the rows with the
  non-finite values removed.
\<close>

lemma year_values_filter:
  "year_values h accessor (filter (\<lambda>r. isFinite (accessor r)) rows) y
     = year_values h accessor rows y"
  by (simp add: year_values_def conj_commute cong: conj_cong)

lemma month_values_filter:
  "month_values h accessor year (filter (\<lambda>r. isFinite (accessor r)) rows) m
     = month_values h accessor year rows m"
  by (simp add: month_values_def conj_commute cong: conj_cong)

lemma rollupAvgByYear_skips:
  "map_of (rollupAvgByYear h (filter (\<lambda>r. isFinite (accessor r)) rows) accessor) y
     = map_of (rollupAvgByYear h rows accessor) y"
  by (simp only: rollupAvgByYear_lookup year_values_filter)

lemma rollupAvgByMonth_skips:
  "rollupAvgByMonth h (filter (\<lambda>r. isFinite (accessor r)) rows) year accessor
     = rollupAvgByMonth h rows year accessor"
proof (rule nth_equalityI)
  show "length (rollupAvgByMonth h (filter (\<lambda>r. isFinite (accessor r)) rows) year accessor)
        = length (rollupAvgByMonth h rows year accessor)"
    using rollupAvgByMonth_nth(1)[of 0] by simp
next
  fix m
  assume "m < length (rollupAvgByMonth h (filter (\<lambda>r. isFinite (accessor r)) rows) year accessor)"
  then have "m < 12" using rollupAvgByMonth_nth(1)[of 0] by simp
  then show "rollupAvgByMonth h (filter (\<lambda>r. isFinite (accessor r)) rows) year accessor ! m
             = rollupAvgByMonth h rows year accessor ! m"
    by (simp only: rollupAvgByMonth_nth(2) month_values_filter)
qed

text \<open>
  Claim C3, as the code has it. In every mean rollup, by year (\<open>rollupAvgByYear\<close>,
  \<open>rollupAvgActualCostByYear\<close>, \<open>avgActualCostByYear\<close>, \<open>avgScheduleVarianceByYear\<close>)
  and by month (\<open>rollupAvgByMonth\<close>, \<open>rollupAvgActualCostByMonth\<close>), the running sum and
  the running count of a period are the sum and the number of the finite values of
  that period's rows, so a row whose value is \<open>NaN\<close> or infinite enters neither, and
  the mean is taken over the finite values alone (a year with none has no entry, a
  month with none reads 0); \<open>coCostByMonth\<close> and \<open>sumSafe\<close> add the finite values only.
  \<open>coCostByYear\<close> adds 0 for a change order of non-finite cost: the total of a year is
  the sum of its finite costs, and the year has an entry as soon as one change order
  is dated in it.
\<close>

theorem rollups_skip_non_finite:
  "(\<forall>s c. foldl (rollupAvgByYear_step h accessor) ([], []) rows = (s, c) \<longrightarrow>
      map_of s y = (if year_values h accessor rows y = [] then None
                    else Some (Fin (sum_list (year_values h accessor rows y)))) \<and>
      map_of c y = (if year_values h accessor rows y = [] then None
                    else Some (Fin (real (length (year_values h accessor rows y)))))) \<and>
   map_of (rollupAvgByYear h rows accessor) y =
     (if year_values h accessor rows y = [] then None
      else Some (Fin (mean_real (year_values h accessor rows y)))) \<and>
   rollupAvgActualCostByYear h rows = rollupAvgByYear h rows actual_cost \<and>
   avgActualCostByYear h rows = rollupAvgByYear h rows actual_cost \<and>
   (m < 12 \<longrightarrow>
      rollupAvgByMonth h rows year accessor ! m =
        (if month_values h accessor year rows m = [] then Fin 0
         else Fin (mean_real (month_values h accessor year rows m)))) \<and>
   rollupAvgActualCostByMonth h rows year = rollupAvgByMonth h rows year actual_cost \<and>
   (m < 12 \<longrightarrow> coCostByMonth h orders year ! m = Fin (sum_list (co_month_costs h year orders m))) \<and>
   sumSafe arr = Fin (sum_list (map fin_val (filter isFinite arr))) \<and>
   map_of (coCostByYear h orders) y =
     (if filter (dated_in h y) orders = [] then None
      else Some (Fin (sum_list (co_year_costs h orders y)))) \<and>
   avgScheduleVarianceByYear h rows = rollupAvgByYear h rows (schedVarAccessor h)"
  using year_fold_invariant[of h accessor rows _ _ y] rollupAvgByYear_lookup[of h rows accessor y]
    rollupAvgActualCostByYear_eq[of h rows] avgActualCostByYear_eq[of h rows]
    rollupAvgByMonth_nth(2)[of m h rows year accessor]
    rollupAvgActualCostByMonth_eq[of h rows year]
    coCostByMonth_invariant[of h orders year] sumSafe_eq[of arr] coCostByYear_lookup[of h orders y]
    avgScheduleVarianceByYear_eq[of h rows]
  by blast

text \<open>
  The claim as stated has every such row skipped, also in the change-order cost by
  year. One change order dated 2023-01-01 with cost \<open>NaN\<close> gives the year 2023 the
  total 0, where skipping the row would leave the result empty.
\<close>

lemma civil_examples:
  "civil_from_days 19358 = (2023, 1, 1)"
  "civil_from_days 19052 = (2022, 3, 1)"
  "civil_from_days 19071 = (2022, 3, 20)"
  "civil_from_days 19122 = (2022, 5, 10)"
  by code_simp+

lemma utc_year_2023: "getFullYear utc_host (Date 1672531200000) = Fin 2023"
  by (simp add: utc_host_def civil_examples)

theorem coCostByYear_zero_fills:
  "coCostByYear utc_host [nan_order] = [(Fin 2023, Fin 0)] \<and>
   coCostByYear utc_host (filter (\<lambda>r. isFinite (co_cost r)) [nan_order]) = []"
  by (simp add: coCostByYear_def coCostByYear_step_def nan_order_def utc_parse_planned
      utc_year_2023 obj_add_def get_or0_def del: getFullYear.simps)

lemma utc_march:
  "newDate utc_host ''2022-03-01'' = Date 1646092800000"
  "newDate utc_host ''2022-03-20'' = Date 1647734400000"
  "newDate utc_host ''2022-05-10'' = Date 1652140800000"
  by (simp_all add: utc_host_def digit_def days_from_civil_def days_in_month_def)

lemma utc_local:
  "localYear utc_host 1646092800000 = 2022" "localMonth utc_host 1646092800000 = 2"
  "localYear utc_host 1647734400000 = 2022" "localMonth utc_host 1647734400000 = 2"
  "localYear utc_host 1652140800000 = 2022" "localMonth utc_host 1652140800000 = 4"
  by (simp_all add: utc_host_def civil_examples)

theorem rollups_skip_non_finite_witness:
  "year_values utc_host actual_cost [example_project, nan_cost_project, march_project] (Fin 2022)
     = [1200000, 800000] \<and>
   foldl (rollupAvgByYear_step utc_host actual_cost) ([], [])
     [example_project, nan_cost_project, march_project]
     = ([(Fin 2022, Fin 2000000)], [(Fin 2022, Fin 2)]) \<and>
   sum_list (year_values utc_host actual_cost
     [example_project, nan_cost_project, march_project] (Fin 2022)) = 2000000 \<and>
   length (year_values utc_host actual_cost
     [example_project, nan_cost_project, march_project] (Fin 2022)) = 2 \<and>
   map_of (rollupAvgByYear utc_host [example_project, nan_cost_project, march_project] actual_cost)
     (Fin 2022) = Some (Fin 1000000) \<and>
   rollupAvgByMonth utc_host [example_project, nan_cost_project, march_project] (Fin 2022)
     actual_cost ! 2 = Fin 1000000 \<and>
   rollupAvgByMonth utc_host [example_project, nan_cost_project, march_project] (Fin 2022)
     actual_cost ! 4 = Fin 0 \<and>
   coCostByMonth utc_host [nan_order] (Fin 2023) ! 0 = Fin 0 \<and>
   map_of (coCostByYear utc_host [nan_order]) (Fin 2023) = Some (Fin 0)"
proof -
  let ?rows = "[example_project, nan_cost_project, march_project]"
  have yv: "year_values utc_host actual_cost ?rows (Fin 2022) = [1200000, 800000]"
    by (simp add: year_values_def year_of_def example_project_def nan_cost_project_def
        march_project_def utc_march utc_local)
  have m2: "month_values utc_host actual_cost (Fin 2022) ?rows 2 = [1200000, 800000]"
    by (simp add: month_values_def in_month_def getMonth_def js_strict_eq_def
        example_project_def nan_cost_project_def march_project_def utc_march utc_local)
  have m4: "month_values utc_host actual_cost (Fin 2022) ?rows 4 = []"
    by (simp add: month_values_def in_month_def getMonth_def js_strict_eq_def
        example_project_def nan_cost_project_def march_project_def utc_march utc_local)
  have cm: "co_month_costs utc_host (Fin 2023) [nan_order] 0 = []"
    by (simp add: co_month_costs_def nan_order_def)
  have cy: "filter (dated_in utc_host (Fin 2023)) [nan_order] = [nan_order]"
    "co_year_costs utc_host [nan_order] (Fin 2023) = []"
    by (simp_all add: dated_in_def co_year_costs_def nan_order_def utc_parse_planned
        utc_year_2023 del: getFullYear.simps)
  note t2 = rollups_skip_non_finite[of utc_host actual_cost ?rows "Fin 2022" 2 "Fin 2022" "[]" "[]"]
  note t4 = rollups_skip_non_finite[of utc_host actual_cost ?rows "Fin 2022" 4 "Fin 2022" "[]" "[]"]
  note t0 = rollups_skip_non_finite[of utc_host actual_cost ?rows "Fin 2023" 0 "Fin 2023" "[nan_order]" "[]"]
  have acc: "foldl (rollupAvgByYear_step utc_host actual_cost) ([], []) ?rows
      = ([(Fin 2022, Fin 2000000)], [(Fin 2022, Fin 2)])"
    by (simp add: rollupAvgByYear_step_def year_of_def obj_add_def get_or0_def js_or_def
        Let_def example_project_def nan_cost_project_def march_project_def utc_march utc_local)
  have sc: "sum_list (year_values utc_host actual_cost ?rows (Fin 2022)) = 2000000 \<and>
      length (year_values utc_host actual_cost ?rows (Fin 2022)) = 2"
    using t2[THEN conjunct1, rule_format, OF acc] by (simp add: yv)
  have a: "map_of (rollupAvgByYear utc_host ?rows actual_cost) (Fin 2022) = Some (Fin 1000000)"
    using t2[THEN conjunct2, THEN conjunct1] by (simp add: yv mean_real_def)
  have b: "rollupAvgByMonth utc_host ?rows (Fin 2022) actual_cost ! 2 = Fin 1000000"
    using t2[THEN conjunct2, THEN conjunct2, THEN conjunct2, THEN conjunct2, THEN conjunct1]
    by (simp add: m2 mean_real_def)
  have c: "rollupAvgByMonth utc_host ?rows (Fin 2022) actual_cost ! 4 = Fin 0"
    using t4[THEN conjunct2, THEN conjunct2, THEN conjunct2, THEN conjunct2, THEN conjunct1]
    by (simp add: m4)
  have d: "coCostByMonth utc_host [nan_order] (Fin 2023) ! 0 = Fin 0"
    using t0[THEN conjunct2, THEN conjunct2, THEN conjunct2, THEN conjunct2, THEN conjunct2,
        THEN conjunct2, THEN conjunct1]
    by (simp add: cm)
  have e: "map_of (coCostByYear utc_host [nan_order]) (Fin 2023) = Some (Fin 0)"
    using t0[THEN conjunct2, THEN conjunct2, THEN conjunct2, THEN conjunct2, THEN conjunct2,
        THEN conjunct2, THEN conjunct2, THEN conjunct2, THEN conjunct1]
    by (simp only: cy) simp
  show ?thesis using yv acc sc a b c d e by simp
qed

end
